theory Spec2Isabelle
  imports Main "HOL-Library.Multiset"
begin

section \<open>The users and posts REST API of \<open>src/app.js\<close>\<close>

text \<open>
  \<open>src/app.js\<close> is an Express application with seven routes over two entities.  Every
  route is a chain of middlewares: for three of them the express-validator rules and
  \<open>checkForErrors\<close> run first, then the asynchronous handler, which calls the Prisma
  client once or twice inside a \<open>try\<close> block and answers with \<open>res.json\<close>.

  The embedding is by explicit state passing.  A route is a function from the request
  and the database state to the response and the new database state.  An exception is
  a value: every ORM call returns \<open>prisma_error + result\<close>, and every \<open>try\<close> block
  returns \<open>thrown + response\<close>, which the \<open>catch\<close> clause of the handler turns into
  the response.  \<open>console.error\<close> writes to the process's log only and is left out.
\<close>

subsection \<open>Data model\<close>

text \<open>
  Modelled from the spec: the Prisma schema (\<open>schema.prisma\<close>) is not among the sources.
  The spec's data model gives a user an identifier, a name, a unique email, a role that
  is USER, ADMIN, SUPERUSER or unset, and a creation timestamp; a post has an identifier,
  a title, a body text, a creation timestamp and its user.  The field names \<open>uuid\<close>,
  \<open>name\<close>, \<open>email\<close>, \<open>role\<close>, \<open>createdAt\<close>, \<open>title\<close>, \<open>body\<close> are the ones
  \<open>src/app.js\<close> uses.  A timestamp is a number (milliseconds).
\<close>

datatype role = USER | ADMIN | SUPERUSER

record user =
  user_uuid :: string
  user_name :: string
  user_email :: string
  user_role :: "role option"
  user_createdAt :: nat

record post =
  post_uuid :: string
  post_title :: string
  post_body :: string
  post_createdAt :: nat
  post_userUuid :: string

text \<open>The calls \<open>src/app.js\<close> issues to the Prisma client.\<close>

datatype orm_call =
  UserFindFirst | UserCreate | UserFindMany | UserUpdate | UserDelete
  | PostCreate | PostFindMany

text \<open>
  The state behind the Prisma client: the two tables (in the order the database
  returns rows when no order is asked for), the outcome of the coming calls
  (\<open>True\<close>: the call fails because the database cannot be reached; an exhausted list
  means no such failure), and the log of the calls issued so far.
\<close>

record db =
  users :: "user list"
  posts :: "post list"
  faults :: "bool list"
  calls :: "orm_call list"

text \<open>
  What the database's column defaults produce for a row being created: its identifier
  and the current time.
\<close>

record env =
  fresh_uuid :: string
  now :: nat

text \<open>
  The errors a Prisma call rejects with: a unique constraint (P2002, with the field), a
  record that an operation needs and does not find (P2025), a foreign key constraint
  (P2003), arguments that do not fit the schema (a validation error of the client), and
  a database that cannot be reached.
\<close>

datatype prisma_error =
  UniqueConstraintFailed string
  | RecordNotFound
  | ForeignKeyFailed
  | ValidationFailed
  | Unreachable

subsection \<open>Requests, responses and JavaScript values\<close>

text \<open>
  The value handed to \<open>res.json\<close>.  \<open>VError\<close> is an error object of the Prisma client
  as the \<open>catch\<close> clause received it.
\<close>

datatype jsval =
  VNull
  | VBool bool
  | VNum nat
  | VStr string
  | VArr "jsval list"
  | VObj "(string \<times> jsval) list"
  | VError prisma_error

text \<open>
  A request: the \<open>:uuid\<close> segment of the path (unused by the routes without one) and
  the parsed JSON body.  A field of the body is a string or is absent (\<open>undefined\<close>);
  the validation rules of \<open>src/app.js\<close> are written for such fields, and the other
  kinds of JSON value are outside the model.
\<close>

record request =
  params_uuid :: string
  req_body :: "string \<rightharpoonup> string"

record response =
  status :: nat
  body :: jsval

text \<open>\<open>res.json(v)\<close> answers with status 200; \<open>res.status(n).json(v)\<close> with \<open>n\<close>.\<close>

definition res_json :: "jsval \<Rightarrow> response" where
  "res_json v = \<lparr>status = 200, body = v\<rparr>"

definition res_status_json :: "nat \<Rightarrow> jsval \<Rightarrow> response" where
  "res_status_json n v = \<lparr>status = n, body = v\<rparr>"

text \<open>
  What a \<open>try\<close> block of \<open>src/app.js\<close> throws: one of its own object literals, such
  as \<open>{ email: "email already exists" }\<close>, or the error of a rejected Prisma call.
\<close>

datatype thrown =
  Literal "(string \<times> string) list"
  | Prisma prisma_error

fun thrown_json :: "thrown \<Rightarrow> jsval" where
  "thrown_json (Literal kvs) = VObj (map (\<lambda>kv. (fst kv, VStr (snd kv))) kvs)"
| "thrown_json (Prisma e) = VError e"

definition role_name :: "role \<Rightarrow> string" where
  "role_name r = (case r of USER \<Rightarrow> ''USER'' | ADMIN \<Rightarrow> ''ADMIN'' | SUPERUSER \<Rightarrow> ''SUPERUSER'')"

definition role_json :: "role option \<Rightarrow> jsval" where
  "role_json r = (case r of None \<Rightarrow> VNull | Some x \<Rightarrow> VStr (role_name x))"

definition user_json :: "user \<Rightarrow> jsval" where
  "user_json u = VObj
     [(''uuid'', VStr (user_uuid u)),
      (''name'', VStr (user_name u)),
      (''email'', VStr (user_email u)),
      (''role'', role_json (user_role u)),
      (''createdAt'', VNum (user_createdAt u))]"

definition post_json :: "post \<Rightarrow> jsval" where
  "post_json p = VObj
     [(''uuid'', VStr (post_uuid p)),
      (''title'', VStr (post_title p)),
      (''body'', VStr (post_body p)),
      (''createdAt'', VNum (post_createdAt p)),
      (''userUuid'', VStr (post_userUuid p))]"

subsection \<open>express-validator\<close>

text \<open>
  The library is not part of the repository; the definitions below follow its documented
  behaviour for the calls \<open>src/app.js\<close> makes.  A standard validator is applied to the
  field's value converted to a string, and the conversion turns \<open>undefined\<close> into the
  empty string: this is why \<open>isLength({ min: 1 })\<close> rejects a missing field.
\<close>

definition toString :: "string option \<Rightarrow> string" where
  "toString v = (case v of None \<Rightarrow> [] | Some s \<Rightarrow> s)"

definition isLength :: "nat \<Rightarrow> string \<Rightarrow> bool" where
  "isLength m s = (m \<le> length s)"

text \<open>
  \<open>isIn(values)\<close> converts each allowed value to a string in the same way and looks the
  field's string up among them, so an \<open>undefined\<close> among the allowed values stands for
  the empty string.
\<close>

definition isIn :: "string option list \<Rightarrow> string \<Rightarrow> bool" where
  "isIn allowed s = (s \<in> set (map toString allowed))"

text \<open>
  A validation chain \<open>body(field).v1().withMessage(m1).v2().withMessage(m2)\<close> is the
  field with its validators in order, each with its message.  All validators of a chain
  run (there is no \<open>bail\<close>), and each one that fails adds an error for the field.
\<close>

type_synonym validator = "(string \<Rightarrow> bool) \<times> string"
type_synonym chain = "string \<times> validator list"

definition run_chain :: "(string \<rightharpoonup> string) \<Rightarrow> chain \<Rightarrow> (string \<times> string) list" where
  "run_chain b c =
     map (\<lambda>v. (fst c, snd v)) (filter (\<lambda>v. \<not> fst v (toString (b (fst c)))) (snd c))"

text \<open>
  \<open>validationResult(req)\<close> with the formatter \<open>(err) => err.msg\<close>: the errors of all
  chains in order, each as its field and message.
\<close>

definition simpleValidationResults :: "chain list \<Rightarrow> request \<Rightarrow> (string \<times> string) list" where
  "simpleValidationResults rules req = concat (map (run_chain (req_body req)) rules)"

text \<open>\<open>errors.mapped()\<close>: an object with the first error of each field.\<close>

definition mapped :: "(string \<times> string) list \<Rightarrow> (string \<times> string) list" where
  "mapped errors =
     foldl (\<lambda>mapping e. if fst e \<in> fst ` set mapping then mapping else mapping @ [e]) [] errors"

text \<open>
  The rules of \<open>src/app.js\<close>.  \<open>isEmail\<close> of validator.js is a parameter: the model
  fixes nothing about which strings it accepts.
\<close>

definition userValidationRules :: "(string \<Rightarrow> bool) \<Rightarrow> chain list" where
  "userValidationRules isEmail =
     [(''email'', [(isLength 1, ''email can't be empty''), (isEmail, ''Must be a valid email'')]),
      (''name'', [(isLength 1, ''name can't be empty'')]),
      (''role'', [(isIn [Some ''USER'', Some ''ADMIN'', Some ''SUPERUSER'', None],
                  ''Invalid Role, must be one of ['USER', 'ADMIN', 'SUPERUSER', undefined]'')])]"

definition postValidationRules :: "chain list" where
  "postValidationRules =
     [(''title'', [(isLength 1, ''title can't be empty'')]),
      (''body'', [(isLength 1, ''post body can't be empty'')])]"

text \<open>
  \<open>checkForErrors\<close>: \<open>Some\<close> response when it answers itself, \<open>None\<close> when it calls
  \<open>next()\<close>.
\<close>

definition checkForErrors :: "chain list \<Rightarrow> request \<Rightarrow> response option" where
  "checkForErrors rules req =
     (let errors = simpleValidationResults rules req in
      if errors \<noteq> []
      then Some (res_status_json 400 (VObj (map (\<lambda>e. (fst e, VStr (snd e))) (mapped errors))))
      else None)"

subsection \<open>The Prisma client\<close>

text \<open>
  The client is not part of the repository either.  Each call is first issued: it is
  logged and takes the next outcome from \<open>faults\<close>.  A call that reaches the database
  behaves as Prisma documents it, on the tables of the data model above.
\<close>

definition issue :: "orm_call \<Rightarrow> db \<Rightarrow> bool \<times> db" where
  "issue c d =
     (case faults d of
        [] \<Rightarrow> (False, d\<lparr>calls := calls d @ [c]\<rparr>)
      | f # fs \<Rightarrow> (f, d\<lparr>faults := fs, calls := calls d @ [c]\<rparr>))"

text \<open>
  A \<open>where\<close> object with the two fields \<open>src/app.js\<close> filters on.  A field that is
  \<open>undefined\<close> does not filter.
\<close>

record user_where =
  where_uuid :: "string option"
  where_email :: "string option"

definition user_matches :: "user_where \<Rightarrow> user \<Rightarrow> bool" where
  "user_matches w u =
     ((case where_uuid w of None \<Rightarrow> True | Some x \<Rightarrow> user_uuid u = x) \<and>
      (case where_email w of None \<Rightarrow> True | Some x \<Rightarrow> user_email u = x))"

text \<open>\<open>prisma.user.findFirst({ where })\<close>: the first matching row, or \<open>null\<close>.\<close>

definition user_findFirst :: "user_where \<Rightarrow> db \<Rightarrow> (prisma_error + user option) \<times> db" where
  "user_findFirst w d =
     (let (failed, d') = issue UserFindFirst d in
      if failed then (Inl Unreachable, d')
      else (Inr (find (user_matches w) (users d')), d'))"

text \<open>The \<open>data\<close> object \<open>{ name, email, role }\<close>, each field as the body has it.\<close>

record user_data =
  data_name :: "string option"
  data_email :: "string option"
  data_role :: "string option"

definition role_of_string :: "string \<Rightarrow> role option" where
  "role_of_string s =
     (if s = ''USER'' then Some USER
      else if s = ''ADMIN'' then Some ADMIN
      else if s = ''SUPERUSER'' then Some SUPERUSER
      else None)"

text \<open>
  The role argument of a create or update: \<open>None\<close> when the string is no value of the
  enumeration (the client rejects the call), otherwise the role to store, which is unset
  when the argument is \<open>undefined\<close>.
\<close>

definition parse_role :: "string option \<Rightarrow> role option option" where
  "parse_role r =
     (case r of
        None \<Rightarrow> Some None
      | Some s \<Rightarrow> (case role_of_string s of None \<Rightarrow> None | Some x \<Rightarrow> Some (Some x)))"

text \<open>
  \<open>prisma.user.create({ data })\<close>: name and email are required, the role must be a value
  of the enumeration, email and identifier are unique.  The created row is returned.
\<close>

definition user_create :: "env \<Rightarrow> user_data \<Rightarrow> db \<Rightarrow> (prisma_error + user) \<times> db" where
  "user_create e dat d =
     (let (failed, d') = issue UserCreate d in
      if failed then (Inl Unreachable, d')
      else
        (case (data_name dat, data_email dat, parse_role (data_role dat)) of
           (Some n, Some m, Some r) \<Rightarrow>
             if \<exists>u \<in> set (users d'). user_email u = m
             then (Inl (UniqueConstraintFailed ''email''), d')
             else if \<exists>u \<in> set (users d'). user_uuid u = fresh_uuid e
             then (Inl (UniqueConstraintFailed ''uuid''), d')
             else
               (let u = \<lparr>user_uuid = fresh_uuid e, user_name = n, user_email = m,
                         user_role = r, user_createdAt = now e\<rparr>
                in (Inr u, d'\<lparr>users := users d' @ [u]\<rparr>))
         | _ \<Rightarrow> (Inl ValidationFailed, d')))"

text \<open>
  \<open>prisma.user.update({ where: { uuid }, data })\<close>: a field of \<open>data\<close> that is
  \<open>undefined\<close> is left as it is.  The call is rejected when no row has the identifier
  and when another row has the new email.  The updated row is returned.
\<close>

definition user_update :: "string \<Rightarrow> user_data \<Rightarrow> db \<Rightarrow> (prisma_error + user) \<times> db" where
  "user_update uuid dat d =
     (let (failed, d') = issue UserUpdate d in
      if failed then (Inl Unreachable, d')
      else
        (case parse_role (data_role dat) of
           None \<Rightarrow> (Inl ValidationFailed, d')
         | Some r \<Rightarrow>
             (case find (\<lambda>u. user_uuid u = uuid) (users d') of
                None \<Rightarrow> (Inl RecordNotFound, d')
              | Some old \<Rightarrow>
                  (let new = old
                       \<lparr>user_name := (case data_name dat of None \<Rightarrow> user_name old | Some n \<Rightarrow> n),
                        user_email := (case data_email dat of None \<Rightarrow> user_email old | Some m \<Rightarrow> m),
                        user_role := (case data_role dat of None \<Rightarrow> user_role old | Some _ \<Rightarrow> r)\<rparr>
                   in if \<exists>u \<in> set (users d'). user_uuid u \<noteq> uuid \<and> user_email u = user_email new
                      then (Inl (UniqueConstraintFailed ''email''), d')
                      else (Inr new,
                            d'\<lparr>users := map (\<lambda>u. if user_uuid u = uuid then new else u) (users d')\<rparr>)))))"

text \<open>
  \<open>prisma.user.delete({ where: { uuid } })\<close>: rejected when no row has the identifier,
  and when a post still refers to the user (referential integrity).
\<close>

definition user_delete :: "string \<Rightarrow> db \<Rightarrow> (prisma_error + user) \<times> db" where
  "user_delete uuid d =
     (let (failed, d') = issue UserDelete d in
      if failed then (Inl Unreachable, d')
      else
        (case find (\<lambda>u. user_uuid u = uuid) (users d') of
           None \<Rightarrow> (Inl RecordNotFound, d')
         | Some u \<Rightarrow>
             if \<exists>p \<in> set (posts d'). post_userUuid p = uuid
             then (Inl ForeignKeyFailed, d')
             else (Inr u, d'\<lparr>users := filter (\<lambda>x. user_uuid x \<noteq> uuid) (users d')\<rparr>)))"

text \<open>
  \<open>orderBy: { createdAt: "asc" | "desc" }\<close>.  The database does not say in which
  order it returns rows with the same timestamp; the model keeps them in table order,
  in both directions, and the theorems below rely on no more than that the result is a
  rearrangement of the rows in the order asked for.
\<close>

datatype sort_order = Asc | Desc

definition order_by :: "sort_order \<Rightarrow> ('a \<Rightarrow> nat) \<Rightarrow> 'a list \<Rightarrow> 'a list" where
  "order_by ord key xs =
     (case ord of Asc \<Rightarrow> sort_key key xs | Desc \<Rightarrow> rev (sort_key key (rev xs)))"

text \<open>
  The row shape of \<open>select: { uuid: true, name: true, role: true, posts: { select:
  { title: true, body: true } } }\<close>.
\<close>

record user_selected =
  sel_uuid :: string
  sel_name :: string
  sel_role :: "role option"
  sel_posts :: "(string \<times> string) list"

definition select_user :: "db \<Rightarrow> user \<Rightarrow> user_selected" where
  "select_user d u =
     \<lparr>sel_uuid = user_uuid u, sel_name = user_name u, sel_role = user_role u,
      sel_posts = map (\<lambda>p. (post_title p, post_body p))
                      (filter (\<lambda>p. post_userUuid p = user_uuid u) (posts d))\<rparr>"

definition user_findMany :: "sort_order \<Rightarrow> db \<Rightarrow> (prisma_error + user_selected list) \<times> db" where
  "user_findMany ord d =
     (let (failed, d') = issue UserFindMany d in
      if failed then (Inl Unreachable, d')
      else (Inr (map (select_user d') (order_by ord user_createdAt (users d'))), d'))"

text \<open>
  \<open>prisma.post.create({ data: { title, body, user: { connect: { uuid } } } })\<close>: title,
  body and the identifier to connect are required, and the user must exist.
\<close>

record post_data =
  data_title :: "string option"
  data_body :: "string option"
  data_connect :: "string option"

definition post_create :: "env \<Rightarrow> post_data \<Rightarrow> db \<Rightarrow> (prisma_error + post) \<times> db" where
  "post_create e dat d =
     (let (failed, d') = issue PostCreate d in
      if failed then (Inl Unreachable, d')
      else
        (case (data_title dat, data_body dat, data_connect dat) of
           (Some t, Some b, Some uu) \<Rightarrow>
             if \<not> (\<exists>u \<in> set (users d'). user_uuid u = uu)
             then (Inl RecordNotFound, d')
             else if \<exists>p \<in> set (posts d'). post_uuid p = fresh_uuid e
             then (Inl (UniqueConstraintFailed ''uuid''), d')
             else
               (let p = \<lparr>post_uuid = fresh_uuid e, post_title = t, post_body = b,
                         post_createdAt = now e, post_userUuid = uu\<rparr>
                in (Inr p, d'\<lparr>posts := posts d' @ [p]\<rparr>))
         | _ \<Rightarrow> (Inl ValidationFailed, d')))"

text \<open>
  \<open>prisma.post.findMany({ orderBy, include: { user: true } })\<close>: every post with the
  row of its user.
\<close>

definition post_findMany :: "sort_order \<Rightarrow> db \<Rightarrow> (prisma_error + (post \<times> user option) list) \<times> db" where
  "post_findMany ord d =
     (let (failed, d') = issue PostFindMany d in
      if failed then (Inl Unreachable, d')
      else (Inr (map (\<lambda>p. (p, find (\<lambda>u. user_uuid u = post_userUuid p) (users d')))
                     (order_by ord post_createdAt (posts d'))), d'))"

definition user_selected_json :: "user_selected \<Rightarrow> jsval" where
  "user_selected_json s = VObj
     [(''uuid'', VStr (sel_uuid s)),
      (''name'', VStr (sel_name s)),
      (''role'', role_json (sel_role s)),
      (''posts'', VArr (map (\<lambda>tb. VObj [(''title'', VStr (fst tb)), (''body'', VStr (snd tb))])
                            (sel_posts s)))]"

definition post_included_json :: "post \<times> user option \<Rightarrow> jsval" where
  "post_included_json pu = VObj
     [(''uuid'', VStr (post_uuid (fst pu))),
      (''title'', VStr (post_title (fst pu))),
      (''body'', VStr (post_body (fst pu))),
      (''createdAt'', VNum (post_createdAt (fst pu))),
      (''userUuid'', VStr (post_userUuid (fst pu))),
      (''user'', (case snd pu of None \<Rightarrow> VNull | Some u \<Rightarrow> user_json u))]"

subsection \<open>The route handlers\<close>

text \<open>
  Each handler is its \<open>try\<close> block, which returns the response or the value thrown,
  and the handler proper, which adds the \<open>catch\<close> clause.
\<close>

definition post_users_try :: "env \<Rightarrow> request \<Rightarrow> db \<Rightarrow> (thrown + response) \<times> db" where
  "post_users_try e req d =
     (let name = req_body req ''name''; email = req_body req ''email''; role = req_body req ''role'' in
      case user_findFirst \<lparr>where_uuid = None, where_email = email\<rparr> d of
        (Inl err, d1) \<Rightarrow> (Inl (Prisma err), d1)
      | (Inr existingUser, d1) \<Rightarrow>
          if existingUser \<noteq> None
          then (Inl (Literal [(''email'', ''email already exists'')]), d1)
          else
            (case user_create e \<lparr>data_name = name, data_email = email, data_role = role\<rparr> d1 of
               (Inl err, d2) \<Rightarrow> (Inl (Prisma err), d2)
             | (Inr user, d2) \<Rightarrow>
                 (Inr (res_json (VObj [(''success'', VBool True), (''data'', user_json user)])), d2)))"

definition post_users_handler :: "env \<Rightarrow> request \<Rightarrow> db \<Rightarrow> response \<times> db" where
  "post_users_handler e req d =
     (case post_users_try e req d of
        (Inr res, d') \<Rightarrow> (res, d')
      | (Inl error, d') \<Rightarrow>
          (res_status_json 400 (VObj [(''success'', VBool False), (''error'', thrown_json error)]), d'))"

definition get_users_try :: "request \<Rightarrow> db \<Rightarrow> (thrown + response) \<times> db" where
  "get_users_try req d =
     (case user_findMany Desc d of
        (Inl err, d1) \<Rightarrow> (Inl (Prisma err), d1)
      | (Inr users', d1) \<Rightarrow>
          (Inr (res_json (VObj [(''success'', VBool True),
                                (''data'', VArr (map user_selected_json users'))])), d1))"

definition get_users_handler :: "request \<Rightarrow> db \<Rightarrow> response \<times> db" where
  "get_users_handler req d =
     (case get_users_try req d of
        (Inr res, d') \<Rightarrow> (res, d')
      | (Inl error, d') \<Rightarrow>
          (res_status_json 500
             (VObj [(''success'', VBool False), (''error'', VStr ''Something went wrong'')]), d'))"

definition put_user_try :: "request \<Rightarrow> db \<Rightarrow> (thrown + response) \<times> db" where
  "put_user_try req d =
     (let name = req_body req ''name''; email = req_body req ''email''; role = req_body req ''role'';
          uuid = params_uuid req in
      case user_findFirst \<lparr>where_uuid = Some uuid, where_email = None\<rparr> d of
        (Inl err, d1) \<Rightarrow> (Inl (Prisma err), d1)
      | (Inr user, d1) \<Rightarrow>
          if user = None
          then (Inl (Literal [(''user'', ''user doesn't exists'')]), d1)
          else
            (case user_update uuid \<lparr>data_name = name, data_email = email, data_role = role\<rparr> d1 of
               (Inl err, d2) \<Rightarrow> (Inl (Prisma err), d2)
             | (Inr user', d2) \<Rightarrow>
                 (Inr (res_json (VObj [(''success'', VBool True), (''data'', user_json user')])), d2)))"

definition put_user_handler :: "request \<Rightarrow> db \<Rightarrow> response \<times> db" where
  "put_user_handler req d =
     (case put_user_try req d of
        (Inr res, d') \<Rightarrow> (res, d')
      | (Inl error, d') \<Rightarrow>
          (res_status_json 404 (VObj [(''success'', VBool False), (''error'', thrown_json error)]), d'))"

definition delete_user_try :: "request \<Rightarrow> db \<Rightarrow> (thrown + response) \<times> db" where
  "delete_user_try req d =
     (let uuid = params_uuid req in
      case user_delete uuid d of
        (Inl err, d1) \<Rightarrow> (Inl (Prisma err), d1)
      | (Inr _, d1) \<Rightarrow>
          (Inr (res_json (VObj [(''success'', VBool True), (''message'', VStr ''User deleted'')])), d1))"

definition delete_user_handler :: "request \<Rightarrow> db \<Rightarrow> response \<times> db" where
  "delete_user_handler req d =
     (case delete_user_try req d of
        (Inr res, d') \<Rightarrow> (res, d')
      | (Inl error, d') \<Rightarrow>
          (res_status_json 500
             (VObj [(''success'', VBool False), (''error'', VStr ''Something went wrong'')]), d'))"

definition get_user_try :: "request \<Rightarrow> db \<Rightarrow> (thrown + response) \<times> db" where
  "get_user_try req d =
     (let uuid = params_uuid req in
      case user_findFirst \<lparr>where_uuid = Some uuid, where_email = None\<rparr> d of
        (Inl err, d1) \<Rightarrow> (Inl (Prisma err), d1)
      | (Inr None, d1) \<Rightarrow> (Inl (Literal [(''user'', ''user doesn't exists'')]), d1)
      | (Inr (Some user), d1) \<Rightarrow>
          (Inr (res_json (VObj [(''success'', VBool True), (''data'', user_json user)])), d1))"

definition get_user_handler :: "request \<Rightarrow> db \<Rightarrow> response \<times> db" where
  "get_user_handler req d =
     (case get_user_try req d of
        (Inr res, d') \<Rightarrow> (res, d')
      | (Inl error, d') \<Rightarrow>
          (res_status_json 404
             (VObj [(''success'', VBool False), (''error'', VStr ''Something went wrong'')]), d'))"

definition post_posts_try :: "env \<Rightarrow> request \<Rightarrow> db \<Rightarrow> (thrown + response) \<times> db" where
  "post_posts_try e req d =
     (let userUuid = req_body req ''userUuid''; title = req_body req ''title'';
          body' = req_body req ''body'' in
      case post_create e \<lparr>data_title = title, data_body = body', data_connect = userUuid\<rparr> d of
        (Inl err, d1) \<Rightarrow> (Inl (Prisma err), d1)
      | (Inr post, d1) \<Rightarrow>
          (Inr (res_json (VObj [(''success'', VBool True), (''data'', post_json post)])), d1))"

definition post_posts_handler :: "env \<Rightarrow> request \<Rightarrow> db \<Rightarrow> response \<times> db" where
  "post_posts_handler e req d =
     (case post_posts_try e req d of
        (Inr res, d') \<Rightarrow> (res, d')
      | (Inl error, d') \<Rightarrow>
          (res_status_json 500 (VObj [(''success'', VBool False), (''error'', thrown_json error)]), d'))"

definition get_posts_try :: "request \<Rightarrow> db \<Rightarrow> (thrown + response) \<times> db" where
  "get_posts_try req d =
     (case post_findMany Desc d of
        (Inl err, d1) \<Rightarrow> (Inl (Prisma err), d1)
      | (Inr posts', d1) \<Rightarrow>
          (Inr (res_json (VObj [(''success'', VBool True),
                                (''data'', VArr (map post_included_json posts'))])), d1))"

definition get_posts_handler :: "request \<Rightarrow> db \<Rightarrow> response \<times> db" where
  "get_posts_handler req d =
     (case get_posts_try req d of
        (Inr res, d') \<Rightarrow> (res, d')
      | (Inl error, d') \<Rightarrow>
          (res_status_json 500
             (VObj [(''success'', VBool False), (''error'', VStr ''Something went wrong'')]), d'))"

subsection \<open>The routes\<close>

text \<open>
  \<open>app.post("/users", userValidationRules, checkForErrors, handler)\<close> and its like: the
  handler runs only when \<open>checkForErrors\<close> calls \<open>next()\<close>.  The other routes have the
  handler alone.
\<close>

definition post_users :: "(string \<Rightarrow> bool) \<Rightarrow> env \<Rightarrow> request \<Rightarrow> db \<Rightarrow> response \<times> db" where
  "post_users isEmail e req d =
     (case checkForErrors (userValidationRules isEmail) req of
        Some res \<Rightarrow> (res, d)
      | None \<Rightarrow> post_users_handler e req d)"

definition put_user :: "(string \<Rightarrow> bool) \<Rightarrow> request \<Rightarrow> db \<Rightarrow> response \<times> db" where
  "put_user isEmail req d =
     (case checkForErrors (userValidationRules isEmail) req of
        Some res \<Rightarrow> (res, d)
      | None \<Rightarrow> put_user_handler req d)"

definition post_posts :: "env \<Rightarrow> request \<Rightarrow> db \<Rightarrow> response \<times> db" where
  "post_posts e req d =
     (case checkForErrors postValidationRules req of
        Some res \<Rightarrow> (res, d)
      | None \<Rightarrow> post_posts_handler e req d)"

datatype route =
  POST_users | GET_users | PUT_user | DELETE_user | GET_user | POST_posts | GET_posts

fun app :: "(string \<Rightarrow> bool) \<Rightarrow> env \<Rightarrow> route \<Rightarrow> request \<Rightarrow> db \<Rightarrow> response \<times> db" where
  "app isEmail e POST_users req d = post_users isEmail e req d"
| "app isEmail e GET_users req d = get_users_handler req d"
| "app isEmail e PUT_user req d = put_user isEmail req d"
| "app isEmail e DELETE_user req d = delete_user_handler req d"
| "app isEmail e GET_user req d = get_user_handler req d"
| "app isEmail e POST_posts req d = post_posts e req d"
| "app isEmail e GET_posts req d = get_posts_handler req d"

subsection \<open>Reading a response\<close>

text \<open>The field \<open>k\<close> of a response body, when the body is an object that has it.\<close>

definition field :: "string \<Rightarrow> jsval \<Rightarrow> jsval option" where
  "field k v = (case v of VObj kvs \<Rightarrow> map_of kvs k | _ \<Rightarrow> None)"

fun is_boolean :: "jsval option \<Rightarrow> bool" where
  "is_boolean (Some (VBool b)) = True"
| "is_boolean _ = False"

fun is_error_object :: "jsval option \<Rightarrow> bool" where
  "is_error_object (Some (VError err)) = True"
| "is_error_object _ = False"

text \<open>
  The envelope of the spec, \<open>{ success: boolean, data|error|message }\<close>: an object with
  a boolean \<open>success\<close> and at least one of the three other fields.
\<close>

definition is_envelope :: "jsval \<Rightarrow> bool" where
  "is_envelope v =
     (is_boolean (field ''success'' v) \<and>
      (field ''data'' v \<noteq> None \<or> field ''error'' v \<noteq> None \<or> field ''message'' v \<noteq> None))"

text \<open>The response of the handlers that answer a failure without saying what failed.\<close>

definition generic_failure :: response where
  "generic_failure =
     \<lparr>status = 500,
      body = VObj [(''success'', VBool False), (''error'', VStr ''Something went wrong'')]\<rparr>"

text \<open>The validation rules in front of each route's handler.\<close>

fun route_rules :: "(string \<Rightarrow> bool) \<Rightarrow> route \<Rightarrow> chain list" where
  "route_rules isEmail POST_users = userValidationRules isEmail"
| "route_rules isEmail PUT_user = userValidationRules isEmail"
| "route_rules isEmail POST_posts = postValidationRules"
| "route_rules isEmail rt = []"

subsection \<open>Sample data\<close>

text \<open>
  Concrete inputs on which the theorems below are run.  \<open>sample_isEmail\<close> stands in for
  validator.js's \<open>isEmail\<close> there: it accepts the strings that contain an \<open>@\<close>.
\<close>

definition sample_isEmail :: "string \<Rightarrow> bool" where
  "sample_isEmail s = (CHR ''@'' \<in> set s)"

definition env0 :: env where
  "env0 = \<lparr>fresh_uuid = ''u3'', now = 50\<rparr>"

definition ann :: user where
  "ann = \<lparr>user_uuid = ''u1'', user_name = ''Ann'', user_email = ''ann@x.org'',
          user_role = Some ADMIN, user_createdAt = 10\<rparr>"

definition bob :: user where
  "bob = \<lparr>user_uuid = ''u2'', user_name = ''Bob'', user_email = ''bob@x.org'',
          user_role = None, user_createdAt = 30\<rparr>"

definition post1 :: post where
  "post1 = \<lparr>post_uuid = ''p1'', post_title = ''Hello'', post_body = ''First'',
            post_createdAt = 15, post_userUuid = ''u1''\<rparr>"

definition post2 :: post where
  "post2 = \<lparr>post_uuid = ''p2'', post_title = ''Again'', post_body = ''Second'',
            post_createdAt = 40, post_userUuid = ''u2''\<rparr>"

definition db_empty :: db where
  "db_empty = \<lparr>users = [], posts = [], faults = [], calls = []\<rparr>"

definition db_ann :: db where
  "db_ann = \<lparr>users = [ann], posts = [], faults = [], calls = []\<rparr>"

definition db_two :: db where
  "db_two = \<lparr>users = [ann, bob], posts = [post1, post2], faults = [], calls = []\<rparr>"

definition db_down :: db where
  "db_down = \<lparr>users = [ann, bob], posts = [post1, post2], faults = [True], calls = []\<rparr>"

text \<open>A body that passes the user rules, for the user \<open>uuid\<close> of the path.\<close>

definition req_user :: "string \<Rightarrow> string \<Rightarrow> string \<Rightarrow> request" where
  "req_user uuid n m = \<lparr>params_uuid = uuid, req_body = [''name'' \<mapsto> n, ''email'' \<mapsto> m]\<rparr>"

text \<open>The same with a role.\<close>

definition req_user_role :: "string \<Rightarrow> string \<Rightarrow> string \<Rightarrow> string \<Rightarrow> request" where
  "req_user_role uuid n m r =
     \<lparr>params_uuid = uuid, req_body = [''name'' \<mapsto> n, ''email'' \<mapsto> m, ''role'' \<mapsto> r]\<rparr>"

text \<open>A request with an empty body.\<close>

definition req_empty :: "string \<Rightarrow> request" where
  "req_empty uuid = \<lparr>params_uuid = uuid, req_body = Map.empty\<rparr>"

text \<open>A body for \<open>POST /posts\<close>.\<close>

definition req_post :: "string \<Rightarrow> string \<Rightarrow> string \<Rightarrow> request" where
  "req_post uu t b =
     \<lparr>params_uuid = [], req_body = [''userUuid'' \<mapsto> uu, ''title'' \<mapsto> t, ''body'' \<mapsto> b]\<rparr>"

section \<open>Properties\<close>

subsection \<open>The Prisma client: what a call leaves unchanged\<close>

lemma issue_users [simp]: "users (snd (issue c d)) = users d"
  by (simp add: issue_def split: list.splits)

lemma issue_posts [simp]: "posts (snd (issue c d)) = posts d"
  by (simp add: issue_def split: list.splits)

lemma issue_calls [simp]: "calls (snd (issue c d)) = calls d @ [c]"
  by (simp add: issue_def split: list.splits)

lemma user_findFirst_result:
  "fst (user_findFirst w d) = Inl Unreachable \<or>
   fst (user_findFirst w d) = Inr (find (user_matches w) (users d))"
  by (simp add: user_findFirst_def split_beta)

lemma user_findFirst_users [simp]: "users (snd (user_findFirst w d)) = users d"
  by (simp add: user_findFirst_def split_beta)

lemma user_findFirst_posts [simp]: "posts (snd (user_findFirst w d)) = posts d"
  by (simp add: user_findFirst_def split_beta)

lemma user_findFirst_calls [simp]:
  "calls (snd (user_findFirst w d)) = calls d @ [UserFindFirst]"
  by (simp add: user_findFirst_def split_beta)

lemma find_email_Some:
  assumes "\<exists>u \<in> set us. user_email u = m"
  shows "find (user_matches \<lparr>where_uuid = None, where_email = Some m\<rparr>) us \<noteq> None"
  using assms by (auto simp: find_None_iff user_matches_def)

lemma checkForErrors_status: "checkForErrors rules req = Some res \<Longrightarrow> status res = 400"
  by (auto simp: checkForErrors_def Let_def res_status_json_def split: if_splits)

subsection \<open>Creating a user whose email is taken\<close>

text \<open>
  When a stored user has the email of the body, the \<open>try\<close> block of \<open>POST /users\<close>
  throws after its first call: either \<open>findFirst\<close> is rejected, or it returns that
  user and the handler throws \<open>{ email: "email already exists" }\<close>.
\<close>

lemma post_users_try_duplicate:
  assumes "req_body req ''email'' = Some m" and "\<exists>u \<in> set (users d). user_email u = m"
  shows "\<exists>t. post_users_try e req d =
           (Inl t, snd (user_findFirst \<lparr>where_uuid = None, where_email = Some m\<rparr> d))"
proof -
  let ?w = "\<lparr>where_uuid = None, where_email = Some m\<rparr>"
  from user_findFirst_result [of ?w d] show ?thesis
  proof
    assume "fst (user_findFirst ?w d) = Inl Unreachable"
    then show ?thesis using assms(1)
      by (cases "user_findFirst ?w d") (simp add: post_users_try_def)
  next
    assume "fst (user_findFirst ?w d) = Inr (find (user_matches ?w) (users d))"
    then show ?thesis using assms(1) find_email_Some [OF assms(2)]
      by (cases "user_findFirst ?w d") (auto simp add: post_users_try_def)
  qed
qed

text \<open>
  C2.  A \<open>POST /users\<close> request whose email is the email of a stored user is answered
  with status 400: by \<open>checkForErrors\<close> when the body fails validation, by the
  handler's \<open>catch\<close> clause otherwise.
\<close>

theorem post_users_duplicate_email_400:
  assumes "req_body req ''email'' = Some m" and "\<exists>u \<in> set (users d). user_email u = m"
  shows "status (fst (app isEmail e POST_users req d)) = 400"
proof (cases "checkForErrors (userValidationRules isEmail) req")
  case (Some res)
  then show ?thesis by (simp add: post_users_def checkForErrors_status)
next
  case None
  from post_users_try_duplicate [OF assms] obtain t d'
    where "post_users_try e req d = (Inl t, d')" by blast
  with None show ?thesis
    by (simp add: post_users_def post_users_handler_def res_status_json_def)
qed

theorem post_users_duplicate_email_400_witness:
  "req_body (req_user [] ''Ann Again'' ''ann@x.org'') ''email'' = Some ''ann@x.org'' \<and>
   (\<exists>u \<in> set (users db_ann). user_email u = ''ann@x.org'') \<and>
   status (fst (app sample_isEmail env0 POST_users
                  (req_user [] ''Ann Again'' ''ann@x.org'') db_ann)) = 400"
proof -
  have h1: "req_body (req_user [] ''Ann Again'' ''ann@x.org'') ''email'' = Some ''ann@x.org''"
    by (simp add: req_user_def)
  have h2: "\<exists>u \<in> set (users db_ann). user_email u = ''ann@x.org''"
    by (simp add: db_ann_def ann_def)
  from post_users_duplicate_email_400 [OF h1 h2] h1 h2 show ?thesis by simp
qed

text \<open>
  C10.  On such a request the tables are left as they were, and the only call the
  request can issue to the Prisma client is the \<open>findFirst\<close>: no \<open>create\<close> is issued.
\<close>

theorem post_users_duplicate_email_no_create:
  assumes "req_body req ''email'' = Some m" and "\<exists>u \<in> set (users d). user_email u = m"
  shows "users (snd (app isEmail e POST_users req d)) = users d \<and>
         posts (snd (app isEmail e POST_users req d)) = posts d \<and>
         (calls (snd (app isEmail e POST_users req d)) = calls d \<or>
          calls (snd (app isEmail e POST_users req d)) = calls d @ [UserFindFirst])"
proof (cases "checkForErrors (userValidationRules isEmail) req")
  case (Some res)
  then show ?thesis by (simp add: post_users_def)
next
  case None
  from post_users_try_duplicate [OF assms] obtain t where
    "post_users_try e req d =
       (Inl t, snd (user_findFirst \<lparr>where_uuid = None, where_email = Some m\<rparr> d))"
    by blast
  with None show ?thesis
    by (simp add: post_users_def post_users_handler_def)
qed

theorem post_users_duplicate_email_no_create_witness:
  "req_body (req_user [] ''Ann Again'' ''ann@x.org'') ''email'' = Some ''ann@x.org'' \<and>
   (\<exists>u \<in> set (users db_ann). user_email u = ''ann@x.org'') \<and>
   users (snd (app sample_isEmail env0 POST_users
                 (req_user [] ''Ann Again'' ''ann@x.org'') db_ann)) = [ann] \<and>
   calls (snd (app sample_isEmail env0 POST_users
                 (req_user [] ''Ann Again'' ''ann@x.org'') db_ann)) = [UserFindFirst]"
proof -
  let ?req = "req_user [] ''Ann Again'' ''ann@x.org''"
  have h1: "req_body ?req ''email'' = Some ''ann@x.org''"
    by (simp add: req_user_def)
  have h2: "\<exists>u \<in> set (users db_ann). user_email u = ''ann@x.org''"
    by (simp add: db_ann_def ann_def)
  have ran: "calls (snd (app sample_isEmail env0 POST_users ?req db_ann)) \<noteq> calls db_ann"
    by (simp add: post_users_def checkForErrors_def simpleValidationResults_def
        userValidationRules_def run_chain_def toString_def isLength_def isIn_def
        sample_isEmail_def req_user_def post_users_handler_def post_users_try_def
        user_findFirst_def issue_def db_ann_def ann_def user_matches_def)
  from post_users_duplicate_email_no_create [OF h1 h2, of sample_isEmail env0] ran h1 h2
  show ?thesis by (simp add: db_ann_def)
qed

subsection \<open>A uuid that no stored user has\<close>

lemma find_uuid_None:
  assumes "\<forall>u \<in> set us. user_uuid u \<noteq> x"
  shows "find (user_matches \<lparr>where_uuid = Some x, where_email = None\<rparr>) us = None"
  using assms by (auto simp: find_None_iff user_matches_def)

text \<open>
  The \<open>try\<close> blocks of \<open>GET /users/:uuid\<close> and \<open>PUT /users/:uuid\<close> both start with
  \<open>findFirst({ where: { uuid } })\<close> and throw when it is rejected or returns \<open>null\<close>.
\<close>

lemma get_user_try_unknown:
  assumes "\<forall>u \<in> set (users d). user_uuid u \<noteq> params_uuid req"
  shows "\<exists>t d'. get_user_try req d = (Inl t, d')"
proof -
  let ?w = "\<lparr>where_uuid = Some (params_uuid req), where_email = None\<rparr>"
  from user_findFirst_result [of ?w d] show ?thesis
  proof
    assume "fst (user_findFirst ?w d) = Inl Unreachable"
    then show ?thesis
      by (cases "user_findFirst ?w d") (simp add: get_user_try_def)
  next
    assume "fst (user_findFirst ?w d) = Inr (find (user_matches ?w) (users d))"
    then show ?thesis using find_uuid_None [OF assms]
      by (cases "user_findFirst ?w d") (simp add: get_user_try_def)
  qed
qed

lemma put_user_try_unknown:
  assumes "\<forall>u \<in> set (users d). user_uuid u \<noteq> params_uuid req"
  shows "\<exists>t d'. put_user_try req d = (Inl t, d')"
proof -
  let ?w = "\<lparr>where_uuid = Some (params_uuid req), where_email = None\<rparr>"
  from user_findFirst_result [of ?w d] show ?thesis
  proof
    assume "fst (user_findFirst ?w d) = Inl Unreachable"
    then show ?thesis
      by (cases "user_findFirst ?w d") (simp add: put_user_try_def)
  next
    assume "fst (user_findFirst ?w d) = Inr (find (user_matches ?w) (users d))"
    then show ?thesis using find_uuid_None [OF assms]
      by (cases "user_findFirst ?w d") (simp add: put_user_try_def)
  qed
qed

lemma user_rules_pass_sample:
  "checkForErrors (userValidationRules sample_isEmail) (req_user uu ''Cy'' ''cy@x.org'') = None"
  by (simp add: checkForErrors_def simpleValidationResults_def
        userValidationRules_def run_chain_def toString_def isLength_def isIn_def
        sample_isEmail_def req_user_def)

text \<open>
  C1, as stated: every \<open>GET /users/:uuid\<close> or \<open>PUT /users/:uuid\<close> request whose uuid
  no stored user has is answered with status 404.  This fails for \<open>PUT\<close>: the
  validation rules and \<open>checkForErrors\<close> stand in front of the handler, and a body
  that fails them is answered with 400 before the uuid is looked at.  Here the table is
  empty and the body is empty.
\<close>

theorem put_unknown_uuid_invalid_body_400:
  "users db_empty = [] \<and>
   status (fst (app sample_isEmail env0 PUT_user (req_empty ''u9'') db_empty)) = 400"
  by (simp add: put_user_def checkForErrors_def simpleValidationResults_def
        userValidationRules_def run_chain_def toString_def isLength_def isIn_def
        sample_isEmail_def req_empty_def res_status_json_def db_empty_def)

text \<open>
  C1, amended: when no stored user has the uuid of the path, every
  \<open>GET /users/:uuid\<close> request, and every \<open>PUT /users/:uuid\<close> request whose body passes
  validation, is answered with status 404.
\<close>

theorem unknown_uuid_404:
  assumes "\<forall>u \<in> set (users d). user_uuid u \<noteq> params_uuid req"
  shows "status (fst (app isEmail e GET_user req d)) = 404 \<and>
         (checkForErrors (userValidationRules isEmail) req = None \<longrightarrow>
            status (fst (app isEmail e PUT_user req d)) = 404)"
proof
  from get_user_try_unknown [OF assms] obtain t d' where "get_user_try req d = (Inl t, d')"
    by blast
  then show "status (fst (app isEmail e GET_user req d)) = 404"
    by (simp add: get_user_handler_def res_status_json_def)
next
  from put_user_try_unknown [OF assms] obtain t d' where "put_user_try req d = (Inl t, d')"
    by blast
  then show "checkForErrors (userValidationRules isEmail) req = None \<longrightarrow>
            status (fst (app isEmail e PUT_user req d)) = 404"
    by (simp add: put_user_def put_user_handler_def res_status_json_def)
qed

theorem unknown_uuid_404_witness:
  "params_uuid (req_user ''u9'' ''Cy'' ''cy@x.org'') \<notin> user_uuid ` set (users db_ann) \<and>
   checkForErrors (userValidationRules sample_isEmail) (req_user ''u9'' ''Cy'' ''cy@x.org'') = None \<and>
   status (fst (app sample_isEmail env0 GET_user (req_user ''u9'' ''Cy'' ''cy@x.org'') db_ann)) = 404 \<and>
   status (fst (app sample_isEmail env0 PUT_user (req_user ''u9'' ''Cy'' ''cy@x.org'') db_ann)) = 404"
proof -
  let ?req = "req_user ''u9'' ''Cy'' ''cy@x.org''"
  have h1: "\<forall>u \<in> set (users db_ann). user_uuid u \<noteq> params_uuid ?req"
    by (simp add: db_ann_def ann_def req_user_def)
  have h2: "checkForErrors (userValidationRules sample_isEmail) ?req = None"
    by (rule user_rules_pass_sample)
  have h3: "params_uuid ?req \<notin> user_uuid ` set (users db_ann)"
    by (simp add: db_ann_def ann_def req_user_def)
  from unknown_uuid_404 [OF h1, of sample_isEmail env0] h2 h3 show ?thesis by simp
qed

text \<open>
  \<open>prisma.user.delete\<close> is rejected when no row has the uuid (or when the database is
  not reached), so the \<open>try\<close> block of \<open>DELETE /users/:uuid\<close> throws.
\<close>

lemma user_delete_unknown:
  assumes "\<forall>u \<in> set (users d). user_uuid u \<noteq> x"
  shows "\<exists>err d'. user_delete x d = (Inl err, d')"
proof -
  from assms have "find (\<lambda>u. user_uuid u = x) (users d) = None"
    by (auto simp: find_None_iff)
  then show ?thesis
    by (simp add: user_delete_def split_beta)
qed

text \<open>
  C8.  A \<open>DELETE /users/:uuid\<close> request whose uuid no stored user has is answered with
  status 500 and the body \<open>{ success: false, error: "Something went wrong" }\<close>, not
  with 404.
\<close>

theorem delete_unknown_uuid_500:
  assumes "\<forall>u \<in> set (users d). user_uuid u \<noteq> params_uuid req"
  shows "fst (app isEmail e DELETE_user req d) =
           \<lparr>status = 500,
            body = VObj [(''success'', VBool False), (''error'', VStr ''Something went wrong'')]\<rparr>"
proof -
  from user_delete_unknown [OF assms] obtain err d'
    where "user_delete (params_uuid req) d = (Inl err, d')" by blast
  then show ?thesis
    by (simp add: delete_user_handler_def delete_user_try_def res_status_json_def)
qed

theorem delete_unknown_uuid_500_witness:
  "params_uuid (req_empty ''u9'') \<notin> user_uuid ` set (users db_ann) \<and>
   fst (app sample_isEmail env0 DELETE_user (req_empty ''u9'') db_ann) =
           \<lparr>status = 500,
            body = VObj [(''success'', VBool False), (''error'', VStr ''Something went wrong'')]\<rparr> \<and>
   status (fst (app sample_isEmail env0 DELETE_user (req_empty ''u9'') db_ann)) \<noteq> 404"
proof -
  have h1: "\<forall>u \<in> set (users db_ann). user_uuid u \<noteq> params_uuid (req_empty ''u9'')"
    by (simp add: db_ann_def ann_def req_empty_def)
  have h2: "params_uuid (req_empty ''u9'') \<notin> user_uuid ` set (users db_ann)"
    by (simp add: db_ann_def ann_def req_empty_def)
  from delete_unknown_uuid_500 [OF h1, of sample_isEmail env0] h2 show ?thesis by simp
qed

subsection \<open>The two lists\<close>

lemma order_by_Desc_sorted: "sorted_wrt (\<ge>) (map key (order_by Desc key xs))"
proof -
  have "sorted_wrt (\<ge>) (rev (map key (sort_key key (rev xs))))"
    by (simp add: sorted_wrt_rev)
  then show ?thesis
    by (simp add: order_by_def rev_map)
qed

text \<open>Rows with the same key stay in table order.\<close>

lemma order_by_Desc_ties:
  "order_by Desc fst [(5::nat, ''a''), (5, ''b''), (7, ''c'')] = [(7, ''c''), (5, ''a''), (5, ''b'')]"
  by code_simp

lemma order_by_mset: "mset (order_by ord key xs) = mset xs"
  by (cases ord) (simp_all add: order_by_def)

lemma user_findMany_result:
  "fst (user_findMany ord d) = Inl Unreachable \<or>
   fst (user_findMany ord d) =
     Inr (map (select_user d) (order_by ord user_createdAt (users d)))"
  by (simp add: user_findMany_def split_beta select_user_def)

lemma post_findMany_result:
  "fst (post_findMany ord d) = Inl Unreachable \<or>
   fst (post_findMany ord d) =
     Inr (map (\<lambda>p. (p, find (\<lambda>u. user_uuid u = post_userUuid p) (users d)))
              (order_by ord post_createdAt (posts d)))"
  by (simp add: post_findMany_def split_beta)

text \<open>
  A \<open>GET /users\<close> request that succeeds answers with the selected fields of every
  stored user, newest first; \<open>GET /posts\<close> likewise with every stored post and its
  user.
\<close>

lemma get_users_success:
  assumes "status (fst (app isEmail e GET_users req d)) = 200"
  shows "\<exists>rows. mset rows = mset (users d) \<and>
           sorted_wrt (\<ge>) (map user_createdAt rows) \<and>
           body (fst (app isEmail e GET_users req d)) =
             VObj [(''success'', VBool True),
                   (''data'', VArr (map (\<lambda>u. user_selected_json (select_user d u)) rows))]"
proof -
  let ?rows = "order_by Desc user_createdAt (users d)"
  have perm: "mset ?rows = mset (users d)"
    by (rule order_by_mset)
  have desc: "sorted_wrt (\<ge>) (map user_createdAt ?rows)"
    by (rule order_by_Desc_sorted)
  have resp: "body (fst (app isEmail e GET_users req d)) =
             VObj [(''success'', VBool True),
                   (''data'', VArr (map (\<lambda>u. user_selected_json (select_user d u)) ?rows))]"
    using assms user_findMany_result [of Desc d]
    by (cases "user_findMany Desc d")
       (auto simp add: get_users_handler_def get_users_try_def res_json_def res_status_json_def)
  show ?thesis
    by (rule exI [of _ ?rows]) (intro conjI perm desc resp)
qed

lemma get_posts_success:
  assumes "status (fst (app isEmail e GET_posts req d)) = 200"
  shows "\<exists>rows. mset rows = mset (posts d) \<and>
           sorted_wrt (\<ge>) (map post_createdAt rows) \<and>
           body (fst (app isEmail e GET_posts req d)) =
             VObj [(''success'', VBool True),
                   (''data'', VArr (map (\<lambda>p. post_included_json
                                           (p, find (\<lambda>u. user_uuid u = post_userUuid p) (users d)))
                                        rows))]"
proof -
  let ?rows = "order_by Desc post_createdAt (posts d)"
  have perm: "mset ?rows = mset (posts d)"
    by (rule order_by_mset)
  have desc: "sorted_wrt (\<ge>) (map post_createdAt ?rows)"
    by (rule order_by_Desc_sorted)
  have resp: "body (fst (app isEmail e GET_posts req d)) =
             VObj [(''success'', VBool True),
                   (''data'', VArr (map (\<lambda>p. post_included_json
                                           (p, find (\<lambda>u. user_uuid u = post_userUuid p) (users d)))
                                        ?rows))]"
    using assms post_findMany_result [of Desc d]
    by (cases "post_findMany Desc d")
       (auto simp add: get_posts_handler_def get_posts_try_def res_json_def res_status_json_def
          comp_def)
  show ?thesis
    by (rule exI [of _ ?rows]) (intro conjI perm desc resp)
qed

text \<open>
  C9.  The list a successful \<open>GET /users\<close> or \<open>GET /posts\<close> request returns is built,
  element by element, from the stored rows arranged by creation timestamp, newest
  first.  (The elements of \<open>GET /users\<close> do not carry the timestamp themselves, so the
  order is stated on the rows they are selected from.)
\<close>

theorem lists_newest_first:
  "(status (fst (app isEmail e GET_users req d)) = 200 \<longrightarrow>
      (\<exists>rows. mset rows = mset (users d) \<and>
              sorted_wrt (\<ge>) (map user_createdAt rows) \<and>
              field ''data'' (body (fst (app isEmail e GET_users req d))) =
                Some (VArr (map (\<lambda>u. user_selected_json (select_user d u)) rows)))) \<and>
   (status (fst (app isEmail e GET_posts req d)) = 200 \<longrightarrow>
      (\<exists>rows. mset rows = mset (posts d) \<and>
              sorted_wrt (\<ge>) (map post_createdAt rows) \<and>
              field ''data'' (body (fst (app isEmail e GET_posts req d))) =
                Some (VArr (map (\<lambda>p. post_included_json
                                   (p, find (\<lambda>u. user_uuid u = post_userUuid p) (users d)))
                                rows))))"
proof (intro conjI impI)
  assume ok: "status (fst (app isEmail e GET_users req d)) = 200"
  from get_users_success [OF ok] obtain rows where
    perm: "mset rows = mset (users d)" and
    desc: "sorted_wrt (\<ge>) (map user_createdAt rows)" and
    resp: "body (fst (app isEmail e GET_users req d)) =
             VObj [(''success'', VBool True),
                   (''data'', VArr (map (\<lambda>u. user_selected_json (select_user d u)) rows))]"
    by blast
  have data: "field ''data'' (body (fst (app isEmail e GET_users req d))) =
          Some (VArr (map (\<lambda>u. user_selected_json (select_user d u)) rows))"
    by (simp only: resp) (simp add: field_def)
  show "\<exists>rows. mset rows = mset (users d) \<and>
              sorted_wrt (\<ge>) (map user_createdAt rows) \<and>
              field ''data'' (body (fst (app isEmail e GET_users req d))) =
                Some (VArr (map (\<lambda>u. user_selected_json (select_user d u)) rows))"
    by (rule exI [of _ rows]) (intro conjI perm desc data)
next
  assume ok: "status (fst (app isEmail e GET_posts req d)) = 200"
  let ?row = "\<lambda>p. post_included_json (p, find (\<lambda>u. user_uuid u = post_userUuid p) (users d))"
  from get_posts_success [OF ok] obtain rows where
    perm: "mset rows = mset (posts d)" and
    desc: "sorted_wrt (\<ge>) (map post_createdAt rows)" and
    resp: "body (fst (app isEmail e GET_posts req d)) =
             VObj [(''success'', VBool True), (''data'', VArr (map ?row rows))]"
    by blast
  have data: "field ''data'' (body (fst (app isEmail e GET_posts req d))) =
          Some (VArr (map ?row rows))"
    by (simp only: resp) (simp add: field_def)
  show "\<exists>rows. mset rows = mset (posts d) \<and>
              sorted_wrt (\<ge>) (map post_createdAt rows) \<and>
              field ''data'' (body (fst (app isEmail e GET_posts req d))) =
                Some (VArr (map ?row rows))"
    by (rule exI [of _ rows]) (intro conjI perm desc data)
qed

text \<open>
  On the sample tables, where Ann (created at 10) is stored before Bob (created at 30),
  Bob comes first.
\<close>

lemma get_users_two:
  "app sample_isEmail env0 GET_users (req_empty []) db_two =
     (\<lparr>status = 200,
       body = VObj [(''success'', VBool True),
                    (''data'', VArr
                       [VObj [(''uuid'', VStr ''u2''), (''name'', VStr ''Bob''), (''role'', VNull),
                              (''posts'', VArr [VObj [(''title'', VStr ''Again''),
                                                     (''body'', VStr ''Second'')]])],
                        VObj [(''uuid'', VStr ''u1''), (''name'', VStr ''Ann''),
                              (''role'', VStr ''ADMIN''),
                              (''posts'', VArr [VObj [(''title'', VStr ''Hello''),
                                                     (''body'', VStr ''First'')]])]])]\<rparr>,
      \<lparr>users = [ann, bob], posts = [post1, post2], faults = [], calls = [UserFindMany]\<rparr>)"
  by code_simp

lemma get_posts_two_status:
  "status (fst (app sample_isEmail env0 GET_posts (req_empty []) db_two)) = 200"
  by code_simp

theorem lists_newest_first_witness:
  "status (fst (app sample_isEmail env0 GET_users (req_empty []) db_two)) = 200 \<and>
   status (fst (app sample_isEmail env0 GET_posts (req_empty []) db_two)) = 200 \<and>
   (\<exists>rows. mset rows = mset (users db_two) \<and>
           sorted_wrt (\<ge>) (map user_createdAt rows) \<and>
           field ''data'' (body (fst (app sample_isEmail env0 GET_users (req_empty []) db_two))) =
             Some (VArr (map (\<lambda>u. user_selected_json (select_user db_two u)) rows))) \<and>
   (\<exists>rows. mset rows = mset (posts db_two) \<and>
           sorted_wrt (\<ge>) (map post_createdAt rows) \<and>
           field ''data'' (body (fst (app sample_isEmail env0 GET_posts (req_empty []) db_two))) =
             Some (VArr (map (\<lambda>p. post_included_json
                                (p, find (\<lambda>u. user_uuid u = post_userUuid p) (users db_two)))
                             rows)))"
proof -
  have h1: "status (fst (app sample_isEmail env0 GET_users (req_empty []) db_two)) = 200"
    by (simp only: get_users_two) simp
  have h2: "status (fst (app sample_isEmail env0 GET_posts (req_empty []) db_two)) = 200"
    by (rule get_posts_two_status)
  note both = lists_newest_first [of sample_isEmail env0 "req_empty []" db_two]
  note c1 = both [THEN conjunct1, THEN mp, OF h1]
  note c2 = both [THEN conjunct2, THEN mp, OF h2]
  show ?thesis by (rule conjI [OF h1 conjI [OF h2 conjI [OF c1 c2]]])
qed

subsection \<open>What a successful request returns\<close>

lemma role_json_inject: "role_json r = role_json r' \<Longrightarrow> r = r'"
  by (cases r; cases r')
     (auto simp: role_json_def role_name_def split: role.splits)

text \<open>The object of a user carries all of its five fields: it determines the row.\<close>

lemma user_json_inject: "user_json u = user_json v \<Longrightarrow> u = v"
  by (cases u; cases v) (auto simp: user_json_def dest: role_json_inject)

lemma user_create_Inr:
  assumes "user_create e dat d = (Inr u, d')"
  shows "users d' = users d @ [u]"
  using assms
  by (auto simp: user_create_def split_beta Let_def
           split: if_splits option.splits)

lemma find_uuid_Some:
  assumes "find (\<lambda>u. user_uuid u = x) us = Some old"
  shows "old \<in> set us \<and> user_uuid old = x"
  using assms by (auto simp: find_Some_iff)

lemma user_update_Inr:
  assumes "user_update x dat d = (Inr u, d')"
  shows "u \<in> set (users d') \<and> user_uuid u = x"
proof -
  from assms obtain old where
    old: "find (\<lambda>u. user_uuid u = x) (users d) = Some old" and
    u: "user_uuid u = user_uuid old" and
    d': "users d' = map (\<lambda>v. if user_uuid v = x then u else v) (users d)"
    by (auto simp: user_update_def split_beta Let_def
             split: if_splits option.splits)
  from find_uuid_Some [OF old] have "old \<in> set (users d)" and "user_uuid old = x"
    by simp_all
  then have "(\<lambda>v. if user_uuid v = x then u else v) old \<in> set (users d')"
    unfolding d' by (intro imageI [of old "set (users d)", folded set_map])
  with \<open>user_uuid old = x\<close> u show ?thesis by simp
qed

lemma post_users_success:
  assumes "status (fst (app isEmail e POST_users req d)) = 200"
  shows "\<exists>u. body (fst (app isEmail e POST_users req d)) =
               VObj [(''success'', VBool True), (''data'', user_json u)] \<and>
             users (snd (app isEmail e POST_users req d)) = users d @ [u]"
proof (cases "checkForErrors (userValidationRules isEmail) req")
  case (Some res)
  with assms checkForErrors_status [OF Some] show ?thesis
    by (simp add: post_users_def)
next
  case None
  let ?w = "\<lparr>where_uuid = None, where_email = req_body req ''email''\<rparr>"
  let ?dat = "\<lparr>data_name = req_body req ''name'', data_email = req_body req ''email'',
              data_role = req_body req ''role''\<rparr>"
  obtain r1 d1 where f: "user_findFirst ?w d = (r1, d1)" by (cases "user_findFirst ?w d")
  obtain r2 d2 where c: "user_create e ?dat d1 = (r2, d2)" by (cases "user_create e ?dat d1")
  from f have d1: "users d1 = users d"
    using user_findFirst_users [of ?w d] by simp
  from assms None f c obtain u where r2: "r2 = Inr u" and
    b: "body (fst (app isEmail e POST_users req d)) =
          VObj [(''success'', VBool True), (''data'', user_json u)]" and
    s: "snd (app isEmail e POST_users req d) = d2"
    by (auto simp: post_users_def post_users_handler_def post_users_try_def
          res_json_def res_status_json_def split: sum.splits if_splits)
  from c r2 have "users d2 = users d1 @ [u]" by (simp add: user_create_Inr)
  with b s d1 show ?thesis by simp
qed

lemma get_user_success:
  assumes "status (fst (app isEmail e GET_user req d)) = 200"
  shows "\<exists>u \<in> set (users d). user_uuid u = params_uuid req \<and>
           body (fst (app isEmail e GET_user req d)) =
             VObj [(''success'', VBool True), (''data'', user_json u)]"
proof -
  let ?w = "\<lparr>where_uuid = Some (params_uuid req), where_email = None\<rparr>"
  obtain r1 d1 where f: "user_findFirst ?w d = (r1, d1)" by (cases "user_findFirst ?w d")
  from assms f obtain u where r1: "r1 = Inr (Some u)" and
    b: "body (fst (app isEmail e GET_user req d)) =
          VObj [(''success'', VBool True), (''data'', user_json u)]"
    by (auto simp: get_user_handler_def get_user_try_def
          res_json_def res_status_json_def split: sum.splits option.splits)
  from user_findFirst_result [of ?w d] f r1
  have "find (user_matches ?w) (users d) = Some u" by simp
  then have "u \<in> set (users d) \<and> user_uuid u = params_uuid req"
    by (auto simp: find_Some_iff user_matches_def)
  with b show ?thesis by blast
qed

lemma put_user_success:
  assumes "status (fst (app isEmail e PUT_user req d)) = 200"
  shows "\<exists>u \<in> set (users (snd (app isEmail e PUT_user req d))).
           user_uuid u = params_uuid req \<and>
           body (fst (app isEmail e PUT_user req d)) =
             VObj [(''success'', VBool True), (''data'', user_json u)]"
proof (cases "checkForErrors (userValidationRules isEmail) req")
  case (Some res)
  with assms checkForErrors_status [OF Some] show ?thesis
    by (simp add: put_user_def)
next
  case None
  let ?w = "\<lparr>where_uuid = Some (params_uuid req), where_email = None\<rparr>"
  let ?dat = "\<lparr>data_name = req_body req ''name'', data_email = req_body req ''email'',
              data_role = req_body req ''role''\<rparr>"
  obtain r1 d1 where f: "user_findFirst ?w d = (r1, d1)" by (cases "user_findFirst ?w d")
  obtain r2 d2 where c: "user_update (params_uuid req) ?dat d1 = (r2, d2)"
    by (cases "user_update (params_uuid req) ?dat d1")
  from assms None f c obtain u where r2: "r2 = Inr u" and
    b: "body (fst (app isEmail e PUT_user req d)) =
          VObj [(''success'', VBool True), (''data'', user_json u)]" and
    s: "snd (app isEmail e PUT_user req d) = d2"
    by (auto simp: put_user_def put_user_handler_def put_user_try_def
          res_json_def res_status_json_def split: sum.splits if_splits)
  from c r2 have "u \<in> set (users d2) \<and> user_uuid u = params_uuid req"
    by (simp add: user_update_Inr)
  with b s show ?thesis by auto
qed


text \<open>
  The elements of a successful \<open>GET /users\<close>, field by field: one object for every
  stored user, with the user's \<open>uuid\<close>, \<open>name\<close> and \<open>role\<close> and, as \<open>posts\<close>, the
  title and body of each of the user's posts.
\<close>

lemma get_users_selected_fields:
  assumes "status (fst (app isEmail e GET_users req d)) = 200"
  shows "\<exists>rows. mset rows = mset (users d) \<and>
           body (fst (app isEmail e GET_users req d)) =
             VObj [(''success'', VBool True),
                   (''data'', VArr (map (\<lambda>u. VObj
                      [(''uuid'', VStr (user_uuid u)),
                       (''name'', VStr (user_name u)),
                       (''role'', role_json (user_role u)),
                       (''posts'', VArr (map (\<lambda>p. VObj [(''title'', VStr (post_title p)),
                                                          (''body'', VStr (post_body p))])
                                            (filter (\<lambda>p. post_userUuid p = user_uuid u)
                                                    (posts d))))]) rows))]"
proof -
  from get_users_success [OF assms] obtain rows where
    perm: "mset rows = mset (users d)" and
    resp: "body (fst (app isEmail e GET_users req d)) =
             VObj [(''success'', VBool True),
                   (''data'', VArr (map (\<lambda>u. user_selected_json (select_user d u)) rows))]"
    by blast
  have row: "user_selected_json (select_user d u) = VObj
                      [(''uuid'', VStr (user_uuid u)),
                       (''name'', VStr (user_name u)),
                       (''role'', role_json (user_role u)),
                       (''posts'', VArr (map (\<lambda>p. VObj [(''title'', VStr (post_title p)),
                                                          (''body'', VStr (post_body p))])
                                            (filter (\<lambda>p. post_userUuid p = user_uuid u)
                                                    (posts d))))]" for u
    by (simp add: user_selected_json_def select_user_def comp_def)
  from resp have "body (fst (app isEmail e GET_users req d)) =
             VObj [(''success'', VBool True),
                   (''data'', VArr (map (\<lambda>u. VObj
                      [(''uuid'', VStr (user_uuid u)),
                       (''name'', VStr (user_name u)),
                       (''role'', role_json (user_role u)),
                       (''posts'', VArr (map (\<lambda>p. VObj [(''title'', VStr (post_title p)),
                                                          (''body'', VStr (post_body p))])
                                            (filter (\<lambda>p. post_userUuid p = user_uuid u)
                                                    (posts d))))]) rows))]"
    by (simp only: row)
  with perm show ?thesis by blast
qed

text \<open>
  C5, as stated: the \<open>data\<close> of every successful create, read and update is the stored
  record with all of its fields.  This fails for \<open>GET /users\<close>, whose \<open>findMany\<close> has
  an explicit \<open>select\<close>: the elements have \<open>uuid\<close>, \<open>name\<close>, \<open>role\<close> and the
  \<open>posts\<close> (title and body), and neither \<open>email\<close> nor \<open>createdAt\<close>.  Here Ann is the
  only stored user.
\<close>

theorem get_users_rows_are_selected:
  "field ''data'' (body (fst (app sample_isEmail env0 GET_users (req_empty []) db_ann))) =
     Some (VArr [VObj [(''uuid'', VStr ''u1''), (''name'', VStr ''Ann''),
                       (''role'', VStr ''ADMIN''), (''posts'', VArr [])]]) \<and>
   field ''data'' (body (fst (app sample_isEmail env0 GET_users (req_empty []) db_ann))) \<noteq>
     Some (VArr [user_json ann]) \<and>
   field ''email'' (user_json ann) = Some (VStr ''ann@x.org'') \<and>
   field ''createdAt'' (user_json ann) = Some (VNum 10)"
  by code_simp

text \<open>
  C5, amended: the \<open>data\<close> of a successful \<open>POST /users\<close> is the record the request
  stored, with all of its fields; the \<open>data\<close> of a successful \<open>GET /users/:uuid\<close> is
  the stored record with that uuid; the \<open>data\<close> of a successful \<open>PUT /users/:uuid\<close>
  is the record with that uuid as stored after the update; and the \<open>data\<close> of a
  successful \<open>GET /users\<close> is a list with one element for every stored user, in
  some order, each element an object with exactly the selected fields: the user's
  \<open>uuid\<close>, \<open>name\<close> and \<open>role\<close>, and \<open>posts\<close>, the title and body of each of the
  user's posts.  It has no \<open>email\<close> and no \<open>createdAt\<close>.
\<close>

theorem data_is_stored_record:
  "(status (fst (app isEmail e POST_users req d)) = 200 \<longrightarrow>
      (\<exists>u. body (fst (app isEmail e POST_users req d)) =
              VObj [(''success'', VBool True), (''data'', user_json u)] \<and>
            users (snd (app isEmail e POST_users req d)) = users d @ [u])) \<and>
   (status (fst (app isEmail e GET_user req d)) = 200 \<longrightarrow>
      (\<exists>u \<in> set (users d). user_uuid u = params_uuid req \<and>
         body (fst (app isEmail e GET_user req d)) =
           VObj [(''success'', VBool True), (''data'', user_json u)])) \<and>
   (status (fst (app isEmail e PUT_user req d)) = 200 \<longrightarrow>
      (\<exists>u \<in> set (users (snd (app isEmail e PUT_user req d))).
         user_uuid u = params_uuid req \<and>
         body (fst (app isEmail e PUT_user req d)) =
           VObj [(''success'', VBool True), (''data'', user_json u)])) \<and>
   (status (fst (app isEmail e GET_users req d)) = 200 \<longrightarrow>
      (\<exists>rows. mset rows = mset (users d) \<and>
         body (fst (app isEmail e GET_users req d)) =
           VObj [(''success'', VBool True),
                 (''data'', VArr (map (\<lambda>u. VObj
                    [(''uuid'', VStr (user_uuid u)),
                     (''name'', VStr (user_name u)),
                     (''role'', role_json (user_role u)),
                     (''posts'', VArr (map (\<lambda>p. VObj [(''title'', VStr (post_title p)),
                                                        (''body'', VStr (post_body p))])
                                          (filter (\<lambda>p. post_userUuid p = user_uuid u)
                                                  (posts d))))]) rows))]))"
  by (intro conjI impI post_users_success get_user_success put_user_success
        get_users_selected_fields)

lemma post_users_sample_status:
  "status (fst (app sample_isEmail env0 POST_users (req_user ''u1'' ''Cy'' ''cy@x.org'') db_ann)) = 200"
  by code_simp

lemma get_user_sample_status:
  "status (fst (app sample_isEmail env0 GET_user (req_user ''u1'' ''Cy'' ''cy@x.org'') db_ann)) = 200"
  by code_simp

lemma put_user_sample_status:
  "status (fst (app sample_isEmail env0 PUT_user (req_user ''u1'' ''Cy'' ''cy@x.org'') db_ann)) = 200"
  by code_simp

lemma get_users_sample_status:
  "status (fst (app sample_isEmail env0 GET_users (req_empty []) db_two)) = 200"
  by code_simp

theorem data_is_stored_record_witness:
  "status (fst (app sample_isEmail env0 POST_users (req_user ''u1'' ''Cy'' ''cy@x.org'') db_ann)) = 200 \<and>
   status (fst (app sample_isEmail env0 GET_user (req_user ''u1'' ''Cy'' ''cy@x.org'') db_ann)) = 200 \<and>
   status (fst (app sample_isEmail env0 PUT_user (req_user ''u1'' ''Cy'' ''cy@x.org'') db_ann)) = 200 \<and>
   status (fst (app sample_isEmail env0 GET_users (req_empty []) db_two)) = 200 \<and>
   (\<exists>u. body (fst (app sample_isEmail env0 POST_users (req_user ''u1'' ''Cy'' ''cy@x.org'') db_ann)) =
           VObj [(''success'', VBool True), (''data'', user_json u)] \<and>
         users (snd (app sample_isEmail env0 POST_users (req_user ''u1'' ''Cy'' ''cy@x.org'') db_ann)) =
           users db_ann @ [u]) \<and>
   (\<exists>u \<in> set (users db_ann). user_uuid u = params_uuid (req_user ''u1'' ''Cy'' ''cy@x.org'') \<and>
      body (fst (app sample_isEmail env0 GET_user (req_user ''u1'' ''Cy'' ''cy@x.org'') db_ann)) =
        VObj [(''success'', VBool True), (''data'', user_json u)]) \<and>
   (\<exists>u \<in> set (users (snd (app sample_isEmail env0 PUT_user
                               (req_user ''u1'' ''Cy'' ''cy@x.org'') db_ann))).
      user_uuid u = params_uuid (req_user ''u1'' ''Cy'' ''cy@x.org'') \<and>
      body (fst (app sample_isEmail env0 PUT_user (req_user ''u1'' ''Cy'' ''cy@x.org'') db_ann)) =
        VObj [(''success'', VBool True), (''data'', user_json u)]) \<and>
   (\<exists>rows. mset rows = mset (users db_two) \<and>
      body (fst (app sample_isEmail env0 GET_users (req_empty []) db_two)) =
        VObj [(''success'', VBool True),
              (''data'', VArr (map (\<lambda>u. VObj
                 [(''uuid'', VStr (user_uuid u)),
                  (''name'', VStr (user_name u)),
                  (''role'', role_json (user_role u)),
                  (''posts'', VArr (map (\<lambda>p. VObj [(''title'', VStr (post_title p)),
                                                     (''body'', VStr (post_body p))])
                                       (filter (\<lambda>p. post_userUuid p = user_uuid u)
                                               (posts db_two))))]) rows))])"
proof -
  note all = data_is_stored_record [of sample_isEmail env0 "req_user ''u1'' ''Cy'' ''cy@x.org''" db_ann]
  note c1 = all [THEN conjunct1, THEN mp, OF post_users_sample_status]
  note c2 = all [THEN conjunct2, THEN conjunct1, THEN mp, OF get_user_sample_status]
  note c3 = all [THEN conjunct2, THEN conjunct2, THEN conjunct1, THEN mp, OF put_user_sample_status]
  note list = data_is_stored_record [of sample_isEmail env0 "req_empty []" db_two]
  note c4 = list [THEN conjunct2, THEN conjunct2, THEN conjunct2, THEN mp,
                  OF get_users_sample_status]
  show ?thesis
    by (intro conjI post_users_sample_status get_user_sample_status put_user_sample_status
          get_users_sample_status c1 c2 c3 c4)
qed

subsection \<open>The shape of the response bodies\<close>

text \<open>
  \<open>errors.mapped()\<close> keeps, for every field, the first of its errors: read as an
  association list it answers every lookup as the list of errors does, and it has each
  field once.
\<close>

lemma mapped_foldl_lookup:
  "map_of (foldl (\<lambda>mapping e. if fst e \<in> fst ` set mapping then mapping else mapping @ [e])
                 acc es) k =
   map_of (acc @ es) k"
proof (induction es arbitrary: acc)
  case Nil
  then show ?case by simp
next
  case (Cons e es)
  show ?case
  proof (cases "fst e \<in> fst ` set acc")
    case True
    then have "map_of acc (fst e) \<noteq> None"
      by (simp add: map_of_eq_None_iff)
    then have "map_of (acc @ e # es) k = map_of (acc @ es) k"
      by (cases e) (auto simp: map_add_def split: option.splits)
    with True Cons.IH [of acc] show ?thesis by simp
  next
    case False
    with Cons.IH [of "acc @ [e]"] show ?thesis by simp
  qed
qed

lemma mapped_lookup: "map_of (mapped errors) k = map_of errors k"
  using mapped_foldl_lookup [of "[]" errors k] by (simp add: mapped_def)

lemma mapped_foldl_distinct:
  "distinct (map fst acc) \<Longrightarrow>
   distinct (map fst (foldl (\<lambda>mapping e. if fst e \<in> fst ` set mapping then mapping
                                           else mapping @ [e]) acc es))"
  by (induction es arbitrary: acc) auto

lemma mapped_distinct: "distinct (map fst (mapped errors))"
  using mapped_foldl_distinct [of "[]" errors] by (simp add: mapped_def)

lemma map_of_VStr:
  "map_of (map (\<lambda>e. (fst e, VStr (snd e))) es) k = map_option VStr (map_of es k)"
  by (induction es) auto

text \<open>
  The body \<open>checkForErrors\<close> answers with has, for every field, the message of the
  field's first error, and no other field.
\<close>

lemma checkForErrors_field:
  assumes "checkForErrors rules req = Some res"
  shows "field k (body res) = map_option VStr (map_of (simpleValidationResults rules req) k)"
  using assms
  by (auto simp: checkForErrors_def Let_def res_status_json_def field_def map_of_VStr
        mapped_lookup split: if_splits)

lemma checkForErrors_body:
  assumes "checkForErrors rules req = Some res"
  shows "simpleValidationResults rules req \<noteq> [] \<and>
         (\<exists>kvs. body res = VObj kvs \<and> distinct (map fst kvs))"
proof -
  from assms have ne: "simpleValidationResults rules req \<noteq> []"
    and b: "body res =
          VObj (map (\<lambda>e. (fst e, VStr (snd e))) (mapped (simpleValidationResults rules req)))"
    by (auto simp: checkForErrors_def Let_def res_status_json_def split: if_splits)
  have "distinct (map fst (map (\<lambda>e. (fst e, VStr (snd e)))
                             (mapped (simpleValidationResults rules req))))"
    using mapped_distinct [of "simpleValidationResults rules req"] by (simp add: comp_def)
  with ne b show ?thesis by blast
qed

lemma errors_fields: "fst ` set (simpleValidationResults rules req) \<subseteq> fst ` set rules"
  by (fastforce simp: simpleValidationResults_def run_chain_def)

lemma no_success_rule: "''success'' \<notin> fst ` set (route_rules isEmail rt)"
  by (cases rt) (simp_all add: userValidationRules_def postValidationRules_def)

lemma checkForErrors_no_success:
  assumes "checkForErrors (route_rules isEmail rt) req = Some res"
  shows "field ''success'' (body res) = None"
proof -
  from errors_fields [of "route_rules isEmail rt" req] no_success_rule [of isEmail rt]
  have "''success'' \<notin> fst ` set (simpleValidationResults (route_rules isEmail rt) req)"
    by blast
  then have "map_of (simpleValidationResults (route_rules isEmail rt) req) ''success'' = None"
    by (simp add: map_of_eq_None_iff)
  with checkForErrors_field [OF assms, of "''success''"] show ?thesis by simp
qed

lemma checkForErrors_no_rules: "checkForErrors [] req = None"
  by (simp add: checkForErrors_def simpleValidationResults_def)

text \<open>Every response of a handler proper is an envelope, on each of its paths.\<close>

lemma post_users_handler_envelope: "is_envelope (body (fst (post_users_handler e req d)))"
proof -
  let ?w = "\<lparr>where_uuid = None, where_email = req_body req ''email''\<rparr>"
  let ?dat = "\<lparr>data_name = req_body req ''name'', data_email = req_body req ''email'',
              data_role = req_body req ''role''\<rparr>"
  obtain r1 d1 where f: "user_findFirst ?w d = (r1, d1)" by (cases "user_findFirst ?w d")
  obtain r2 d2 where c: "user_create e ?dat d1 = (r2, d2)" by (cases "user_create e ?dat d1")
  from f c show ?thesis
    by (cases r1; cases r2)
       (simp_all add: post_users_handler_def post_users_try_def is_envelope_def field_def
          res_json_def res_status_json_def)
qed

lemma get_users_handler_envelope: "is_envelope (body (fst (get_users_handler req d)))"
proof -
  obtain r1 d1 where f: "user_findMany Desc d = (r1, d1)" by (cases "user_findMany Desc d")
  then show ?thesis
    by (cases r1)
       (simp_all add: get_users_handler_def get_users_try_def is_envelope_def field_def
          res_json_def res_status_json_def)
qed

lemma put_user_handler_envelope: "is_envelope (body (fst (put_user_handler req d)))"
proof -
  let ?w = "\<lparr>where_uuid = Some (params_uuid req), where_email = None\<rparr>"
  let ?dat = "\<lparr>data_name = req_body req ''name'', data_email = req_body req ''email'',
              data_role = req_body req ''role''\<rparr>"
  obtain r1 d1 where f: "user_findFirst ?w d = (r1, d1)" by (cases "user_findFirst ?w d")
  obtain r2 d2 where c: "user_update (params_uuid req) ?dat d1 = (r2, d2)"
    by (cases "user_update (params_uuid req) ?dat d1")
  from f c show ?thesis
    by (cases r1; cases r2)
       (simp_all add: put_user_handler_def put_user_try_def is_envelope_def field_def
          res_json_def res_status_json_def)
qed

lemma delete_user_handler_envelope: "is_envelope (body (fst (delete_user_handler req d)))"
proof -
  obtain r1 d1 where f: "user_delete (params_uuid req) d = (r1, d1)"
    by (cases "user_delete (params_uuid req) d")
  then show ?thesis
    by (cases r1)
       (simp_all add: delete_user_handler_def delete_user_try_def is_envelope_def field_def
          res_json_def res_status_json_def)
qed

lemma get_user_handler_envelope: "is_envelope (body (fst (get_user_handler req d)))"
proof -
  let ?w = "\<lparr>where_uuid = Some (params_uuid req), where_email = None\<rparr>"
  obtain r1 d1 where f: "user_findFirst ?w d = (r1, d1)" by (cases "user_findFirst ?w d")
  then show ?thesis
    by (cases r1)
       (simp_all add: get_user_handler_def get_user_try_def is_envelope_def field_def
          res_json_def res_status_json_def split: option.splits)
qed

lemma post_posts_handler_envelope: "is_envelope (body (fst (post_posts_handler e req d)))"
proof -
  let ?dat = "\<lparr>data_title = req_body req ''title'', data_body = req_body req ''body'',
              data_connect = req_body req ''userUuid''\<rparr>"
  obtain r1 d1 where f: "post_create e ?dat d = (r1, d1)" by (cases "post_create e ?dat d")
  then show ?thesis
    by (cases r1)
       (simp_all add: post_posts_handler_def post_posts_try_def is_envelope_def field_def
          res_json_def res_status_json_def)
qed

lemma get_posts_handler_envelope: "is_envelope (body (fst (get_posts_handler req d)))"
proof -
  obtain r1 d1 where f: "post_findMany Desc d = (r1, d1)" by (cases "post_findMany Desc d")
  then show ?thesis
    by (cases r1)
       (simp_all add: get_posts_handler_def get_posts_try_def is_envelope_def field_def
          res_json_def res_status_json_def)
qed

lemmas handler_envelopes =
  post_users_handler_envelope get_users_handler_envelope put_user_handler_envelope
  delete_user_handler_envelope get_user_handler_envelope post_posts_handler_envelope
  get_posts_handler_envelope

text \<open>
  C4, as stated: every response of every route, validation failure included, is an
  object with a boolean \<open>success\<close> and a \<open>data\<close>, \<open>error\<close> or \<open>message\<close>.  This
  fails on a validation failure: \<open>checkForErrors\<close> answers with \<open>errors.mapped()\<close>
  itself, an object that maps fields to messages.  Here the body of the request is empty.
\<close>

theorem validation_failure_is_no_envelope:
  "\<not> is_envelope (body (fst (app sample_isEmail env0 POST_users (req_empty []) db_empty))) \<and>
   body (fst (app sample_isEmail env0 POST_users (req_empty []) db_empty)) =
     VObj [(''email'', VStr ''email can't be empty''), (''name'', VStr ''name can't be empty'')]"
  by code_simp

text \<open>
  C4, amended: every response of a route handler proper (success, not-found, generic
  failure, taken email) is an object with a boolean \<open>success\<close> and a \<open>data\<close>,
  \<open>error\<close> or \<open>message\<close>; the response to a validation failure comes from
  \<open>checkForErrors\<close>, has status 400 and a body that maps fields to messages and has no
  \<open>success\<close>: the body is an object with each field once, and a field of it is the
  message of the first error the rules report for that field, and is missing when they
  report none for it.
\<close>

theorem envelope_unless_validation_failure:
  "(checkForErrors (route_rules isEmail rt) req = None \<longrightarrow>
      is_envelope (body (fst (app isEmail e rt req d)))) \<and>
   (\<forall>res. checkForErrors (route_rules isEmail rt) req = Some res \<longrightarrow>
      fst (app isEmail e rt req d) = res \<and> status res = 400 \<and>
      field ''success'' (body res) = None \<and>
      simpleValidationResults (route_rules isEmail rt) req \<noteq> [] \<and>
      (\<exists>kvs. body res = VObj kvs \<and> distinct (map fst kvs)) \<and>
      (\<forall>k. field k (body res) =
            map_option VStr
              (map_of (simpleValidationResults (route_rules isEmail rt) req) k)))"
proof (intro conjI allI impI)
  assume "checkForErrors (route_rules isEmail rt) req = None"
  then show "is_envelope (body (fst (app isEmail e rt req d)))"
    by (cases rt)
       (simp_all add: post_users_def put_user_def post_posts_def handler_envelopes)
next
  fix res
  assume some: "checkForErrors (route_rules isEmail rt) req = Some res"
  then show "fst (app isEmail e rt req d) = res"
    by (cases rt)
       (simp_all add: post_users_def put_user_def post_posts_def checkForErrors_no_rules)
  from some show "status res = 400"
    by (rule checkForErrors_status)
  from some show "field ''success'' (body res) = None"
    by (rule checkForErrors_no_success)
  from some show "simpleValidationResults (route_rules isEmail rt) req \<noteq> []"
    by (rule checkForErrors_body [THEN conjunct1])
  from some show "\<exists>kvs. body res = VObj kvs \<and> distinct (map fst kvs)"
    by (rule checkForErrors_body [THEN conjunct2])
next
  fix res k
  assume "checkForErrors (route_rules isEmail rt) req = Some res"
  then show "field k (body res) =
            map_option VStr
              (map_of (simpleValidationResults (route_rules isEmail rt) req) k)"
    by (rule checkForErrors_field)
qed

lemma rules_pass_sample:
  "checkForErrors (route_rules sample_isEmail POST_users) (req_user [] ''Cy'' ''cy@x.org'') = None"
  by code_simp

lemma rules_fail_sample:
  "checkForErrors (route_rules sample_isEmail POST_users) (req_empty []) =
     Some \<lparr>status = 400,
           body = VObj [(''email'', VStr ''email can't be empty''),
                        (''name'', VStr ''name can't be empty'')]\<rparr>"
  by code_simp

theorem envelope_unless_validation_failure_witness:
  "checkForErrors (route_rules sample_isEmail POST_users) (req_user [] ''Cy'' ''cy@x.org'') = None \<and>
   is_envelope (body (fst (app sample_isEmail env0 POST_users (req_user [] ''Cy'' ''cy@x.org'') db_ann))) \<and>
   checkForErrors (route_rules sample_isEmail POST_users) (req_empty []) =
     Some \<lparr>status = 400,
           body = VObj [(''email'', VStr ''email can't be empty''),
                        (''name'', VStr ''name can't be empty'')]\<rparr> \<and>
   fst (app sample_isEmail env0 POST_users (req_empty []) db_ann) =
     \<lparr>status = 400,
      body = VObj [(''email'', VStr ''email can't be empty''),
                   (''name'', VStr ''name can't be empty'')]\<rparr> \<and>
   field ''success'' (VObj [(''email'', VStr ''email can't be empty''),
                            (''name'', VStr ''name can't be empty'')]) = None"
proof -
  let ?res = "\<lparr>status = 400,
               body = VObj [(''email'', VStr ''email can't be empty''),
                            (''name'', VStr ''name can't be empty'')]\<rparr>"
  note pass = envelope_unless_validation_failure
    [of sample_isEmail POST_users "req_user [] ''Cy'' ''cy@x.org''" env0 db_ann,
     THEN conjunct1, THEN mp, OF rules_pass_sample]
  note fail = envelope_unless_validation_failure
    [of sample_isEmail POST_users "req_empty []" env0 db_ann,
     THEN conjunct2, THEN spec, of ?res, THEN mp, OF rules_fail_sample]
  from fail have f1: "fst (app sample_isEmail env0 POST_users (req_empty []) db_ann) = ?res"
    by (rule conjunct1)
  from fail have "field ''success'' (body ?res) = None"
    by (rule conjunct2 [THEN conjunct2, THEN conjunct1])
  then have f2: "field ''success'' (VObj [(''email'', VStr ''email can't be empty''),
                            (''name'', VStr ''name can't be empty'')]) = None"
    by simp
  show ?thesis
    by (intro conjI rules_pass_sample pass rules_fail_sample f1 f2)
qed

subsection \<open>Failures of the ORM calls\<close>

text \<open>
  A request fails, in the sense of this section, when the ORM call its handler issues is
  rejected, whatever the error.
\<close>

lemma get_users_failure:
  assumes "fst (user_findMany Desc d) = Inl err"
  shows "fst (app isEmail e GET_users req d) = generic_failure"
  using assms
  by (cases "user_findMany Desc d")
     (simp add: get_users_handler_def get_users_try_def generic_failure_def res_status_json_def)

lemma get_posts_failure:
  assumes "fst (post_findMany Desc d) = Inl err"
  shows "fst (app isEmail e GET_posts req d) = generic_failure"
  using assms
  by (cases "post_findMany Desc d")
     (simp add: get_posts_handler_def get_posts_try_def generic_failure_def res_status_json_def)

lemma delete_user_failure:
  assumes "fst (user_delete (params_uuid req) d) = Inl err"
  shows "fst (app isEmail e DELETE_user req d) = generic_failure"
  using assms
  by (cases "user_delete (params_uuid req) d")
     (simp add: delete_user_handler_def delete_user_try_def generic_failure_def
        res_status_json_def)

text \<open>
  The \<open>catch\<close> clause of \<open>POST /posts\<close> puts the caught error itself into the body.
\<close>

lemma post_posts_failure:
  assumes "checkForErrors postValidationRules req = None"
    and "fst (post_create e \<lparr>data_title = req_body req ''title'',
                             data_body = req_body req ''body'',
                             data_connect = req_body req ''userUuid''\<rparr> d) = Inl err"
  shows "fst (app isEmail e POST_posts req d) =
           \<lparr>status = 500,
            body = VObj [(''success'', VBool False), (''error'', VError err)]\<rparr>"
  using assms
  by (cases "post_create e \<lparr>data_title = req_body req ''title'',
                             data_body = req_body req ''body'',
                             data_connect = req_body req ''userUuid''\<rparr> d")
     (simp add: post_posts_def post_posts_handler_def post_posts_try_def res_status_json_def)

text \<open>
  The body differs with the cause: a user to connect that does not exist gives another
  error object than a database that is not reached.
\<close>

lemma post_posts_unknown_user:
  "fst (app sample_isEmail env0 POST_posts (req_post ''u9'' ''Title'' ''Text'') db_ann) =
     \<lparr>status = 500,
      body = VObj [(''success'', VBool False), (''error'', VError RecordNotFound)]\<rparr>"
  by code_simp

text \<open>
  C7, as stated: every failure that is neither a validation failure nor a not-found
  condition is answered with status 500 and an opaque message that does not expose the
  underlying error object.  Take a database that is not reached, with requests that
  pass validation.  \<open>POST /posts\<close> answers 500, but the \<open>error\<close> field of its body is
  the error object of the rejected \<open>create\<close>.  \<open>POST /users\<close> answers 400 and
  \<open>PUT /users/:uuid\<close> answers 404, both with the error object of the rejected
  \<open>findFirst\<close>, and \<open>GET /users/:uuid\<close> answers 404 with the fixed message: the one
  \<open>catch\<close> clause of each of these handlers answers every error of its \<open>try\<close> block.
\<close>

theorem outage_not_500_opaque:
  "fst (app sample_isEmail env0 POST_posts (req_post ''u1'' ''Title'' ''Text'') db_down) =
     \<lparr>status = 500,
      body = VObj [(''success'', VBool False), (''error'', VError Unreachable)]\<rparr> \<and>
   is_error_object
     (field ''error''
        (body (fst (app sample_isEmail env0 POST_posts (req_post ''u1'' ''Title'' ''Text'') db_down)))) \<and>
   fst (app sample_isEmail env0 POST_users (req_user [] ''Cy'' ''cy@x.org'') db_down) =
     \<lparr>status = 400,
      body = VObj [(''success'', VBool False), (''error'', VError Unreachable)]\<rparr> \<and>
   fst (app sample_isEmail env0 PUT_user (req_user ''u1'' ''Ann'' ''ann@x.org'') db_down) =
     \<lparr>status = 404,
      body = VObj [(''success'', VBool False), (''error'', VError Unreachable)]\<rparr> \<and>
   fst (app sample_isEmail env0 GET_user (req_empty ''u1'') db_down) =
     \<lparr>status = 404,
      body = VObj [(''success'', VBool False), (''error'', VStr ''Something went wrong'')]\<rparr>"
  by code_simp

text \<open>
  C7, amended: when the ORM call of a \<open>GET /users\<close>, \<open>GET /posts\<close> or
  \<open>DELETE /users/:uuid\<close> request is rejected, with whatever error, the request is
  answered with status 500 and the fixed body
  \<open>{ success: false, error: "Something went wrong" }\<close>; when the \<open>create\<close> call of a
  \<open>POST /posts\<close> request that passed validation is rejected, the request is answered
  with status 500 and a body whose \<open>error\<close> is the error object of the rejection.
\<close>

theorem failures_500:
  "(\<forall>err. fst (user_findMany Desc d) = Inl err \<longrightarrow>
      fst (app isEmail e GET_users req d) = generic_failure) \<and>
   (\<forall>err. fst (post_findMany Desc d) = Inl err \<longrightarrow>
      fst (app isEmail e GET_posts req d) = generic_failure) \<and>
   (\<forall>err. fst (user_delete (params_uuid req) d) = Inl err \<longrightarrow>
      fst (app isEmail e DELETE_user req d) = generic_failure) \<and>
   (\<forall>err. checkForErrors postValidationRules req = None \<and>
          fst (post_create e \<lparr>data_title = req_body req ''title'',
                               data_body = req_body req ''body'',
                               data_connect = req_body req ''userUuid''\<rparr> d) = Inl err \<longrightarrow>
      fst (app isEmail e POST_posts req d) =
        \<lparr>status = 500,
         body = VObj [(''success'', VBool False), (''error'', VError err)]\<rparr>)"
proof (intro conjI allI impI)
  fix err
  assume "fst (user_findMany Desc d) = Inl err"
  then show "fst (app isEmail e GET_users req d) = generic_failure"
    by (rule get_users_failure)
next
  fix err
  assume "fst (post_findMany Desc d) = Inl err"
  then show "fst (app isEmail e GET_posts req d) = generic_failure"
    by (rule get_posts_failure)
next
  fix err
  assume "fst (user_delete (params_uuid req) d) = Inl err"
  then show "fst (app isEmail e DELETE_user req d) = generic_failure"
    by (rule delete_user_failure)
next
  fix err
  assume failed: "checkForErrors postValidationRules req = None \<and>
          fst (post_create e \<lparr>data_title = req_body req ''title'',
                               data_body = req_body req ''body'',
                               data_connect = req_body req ''userUuid''\<rparr> d) = Inl err"
  show "fst (app isEmail e POST_posts req d) =
        \<lparr>status = 500,
         body = VObj [(''success'', VBool False), (''error'', VError err)]\<rparr>"
    by (rule post_posts_failure [OF failed [THEN conjunct1] failed [THEN conjunct2]])
qed

text \<open>
  Three rejections on the sample tables: a database that is not reached, for the two
  lists and for the creation of a post; and the deletion of Ann, whose post still
  refers to her.
\<close>

lemma findMany_users_down: "fst (user_findMany Desc db_down) = Inl Unreachable"
  by code_simp

lemma findMany_posts_down: "fst (post_findMany Desc db_down) = Inl Unreachable"
  by code_simp

lemma delete_ann_rejected:
  "fst (user_delete (params_uuid (req_empty ''u1'')) db_two) = Inl ForeignKeyFailed"
  by code_simp

lemma create_post_down:
  "checkForErrors postValidationRules (req_post ''u1'' ''Title'' ''Text'') = None \<and>
   fst (post_create env0
          \<lparr>data_title = req_body (req_post ''u1'' ''Title'' ''Text'') ''title'',
           data_body = req_body (req_post ''u1'' ''Title'' ''Text'') ''body'',
           data_connect = req_body (req_post ''u1'' ''Title'' ''Text'') ''userUuid''\<rparr>
          db_down) = Inl Unreachable"
  by code_simp

theorem failures_500_witness:
  "fst (user_findMany Desc db_down) = Inl Unreachable \<and>
   fst (post_findMany Desc db_down) = Inl Unreachable \<and>
   fst (user_delete (params_uuid (req_empty ''u1'')) db_two) = Inl ForeignKeyFailed \<and>
   (checkForErrors postValidationRules (req_post ''u1'' ''Title'' ''Text'') = None \<and>
    fst (post_create env0
           \<lparr>data_title = req_body (req_post ''u1'' ''Title'' ''Text'') ''title'',
            data_body = req_body (req_post ''u1'' ''Title'' ''Text'') ''body'',
            data_connect = req_body (req_post ''u1'' ''Title'' ''Text'') ''userUuid''\<rparr>
           db_down) = Inl Unreachable) \<and>
   fst (app sample_isEmail env0 GET_users (req_empty []) db_down) = generic_failure \<and>
   fst (app sample_isEmail env0 GET_posts (req_empty []) db_down) = generic_failure \<and>
   fst (app sample_isEmail env0 DELETE_user (req_empty ''u1'') db_two) = generic_failure \<and>
   fst (app sample_isEmail env0 POST_posts (req_post ''u1'' ''Title'' ''Text'') db_down) =
     \<lparr>status = 500,
      body = VObj [(''success'', VBool False), (''error'', VError Unreachable)]\<rparr>"
proof -
  note lists = failures_500 [of db_down sample_isEmail env0 "req_empty []"]
  note c1 = lists [THEN conjunct1, THEN spec, THEN mp, OF findMany_users_down]
  note c2 = lists [THEN conjunct2, THEN conjunct1, THEN spec, THEN mp, OF findMany_posts_down]
  note del = failures_500 [of db_two sample_isEmail env0 "req_empty ''u1''"]
  note c3 = del [THEN conjunct2, THEN conjunct2, THEN conjunct1, THEN spec, THEN mp,
                 OF delete_ann_rejected]
  note new = failures_500 [of db_down sample_isEmail env0 "req_post ''u1'' ''Title'' ''Text''"]
  note c4 = new [THEN conjunct2, THEN conjunct2, THEN conjunct2, THEN spec, THEN mp,
                 OF create_post_down]
  show ?thesis
    by (intro conjI findMany_users_down findMany_posts_down delete_ann_rejected
          create_post_down [THEN conjunct1] create_post_down [THEN conjunct2] c1 c2 c3 c4)
qed

subsection \<open>Validation of the user fields\<close>

text \<open>
  The user rules report an error exactly when the email, as a string, is empty or is
  rejected by \<open>isEmail\<close>, or the name is empty, or the role is none of \<open>USER\<close>,
  \<open>ADMIN\<close>, \<open>SUPERUSER\<close> and the empty string.  An absent field counts as the empty
  string.
\<close>

lemma user_rules_fail_iff:
  "simpleValidationResults (userValidationRules isEmail) req \<noteq> [] \<longleftrightarrow>
     toString (req_body req ''email'') = [] \<or>
     \<not> isEmail (toString (req_body req ''email'')) \<or>
     toString (req_body req ''name'') = [] \<or>
     toString (req_body req ''role'') \<notin> {''USER'', ''ADMIN'', ''SUPERUSER'', []}"
  by (simp add: simpleValidationResults_def userValidationRules_def run_chain_def
        isLength_def isIn_def toString_def Suc_le_eq)

text \<open>
  The rule for the role alone: it reports no error exactly when the role is absent or
  is one of the four strings.
\<close>

lemma role_rule_passes_iff:
  "''role'' \<notin> fst ` set (simpleValidationResults (userValidationRules isEmail) req) \<longleftrightarrow>
     req_body req ''role'' \<in> {None, Some ''USER'', Some ''ADMIN'', Some ''SUPERUSER'', Some []}"
  by (cases "req_body req ''role''")
     (auto simp add: simpleValidationResults_def userValidationRules_def run_chain_def
        isIn_def toString_def)

text \<open>
  When the user rules report an error, \<open>POST /users\<close> and \<open>PUT /users/:uuid\<close> answer
  alike: status 400 and a body that gives, for every field, the message of the field's
  first error; the tables are not touched.
\<close>

lemma user_validation_failure_400:
  assumes "simpleValidationResults (userValidationRules isEmail) req \<noteq> []"
  shows "\<exists>res. app isEmail e POST_users req d = (res, d) \<and>
               app isEmail e PUT_user req d = (res, d) \<and>
               status res = 400 \<and>
               (\<forall>k. field k (body res) =
                      map_option VStr
                        (map_of (simpleValidationResults (userValidationRules isEmail) req) k))"
proof -
  from assms obtain res where
    res: "checkForErrors (userValidationRules isEmail) req = Some res"
    by (auto simp: checkForErrors_def Let_def)
  then have "app isEmail e POST_users req d = (res, d)"
    and "app isEmail e PUT_user req d = (res, d)"
    by (simp_all add: post_users_def put_user_def)
  with checkForErrors_status [OF res] checkForErrors_field [OF res]
  show ?thesis by blast
qed

text \<open>
  C3.  A \<open>POST /users\<close> or \<open>PUT /users/:uuid\<close> request with an empty or non-RFC-shaped
  email, an empty name, or a role outside the enumeration is answered with status 400
  and a body that maps each failing field to its message.  The two lemmas above give
  this whenever a rule reports an error.  But the rule for the role reports none for
  the empty string, which is outside the enumeration: with such a role and a valid name
  and email the handler runs, the Prisma client rejects the role, and the \<open>catch\<close>
  clause answers.  For \<open>PUT\<close> (with Ann's uuid) that is status 404; for \<open>POST\<close> it is
  status 400 with the caught error, not with a message for the field \<open>role\<close>.
\<close>

theorem empty_role_reaches_handler:
  "app sample_isEmail env0 PUT_user (req_user_role ''u1'' ''Ann'' ''ann@x.org'' '''') db_ann =
     (\<lparr>status = 404,
       body = VObj [(''success'', VBool False), (''error'', VError ValidationFailed)]\<rparr>,
      \<lparr>users = [ann], posts = [], faults = [], calls = [UserFindFirst, UserUpdate]\<rparr>) \<and>
   app sample_isEmail env0 POST_users (req_user_role [] ''Cy'' ''cy@x.org'' '''') db_ann =
     (\<lparr>status = 400,
       body = VObj [(''success'', VBool False), (''error'', VError ValidationFailed)]\<rparr>,
      \<lparr>users = [ann], posts = [], faults = [], calls = [UserFindFirst, UserCreate]\<rparr>) \<and>
   field ''role''
     (body (fst (app sample_isEmail env0 POST_users
                   (req_user_role [] ''Cy'' ''cy@x.org'' '''') db_ann))) = None"
  by code_simp

text \<open>
  C6.  Validation of the role succeeds if and only if the role is \<open>USER\<close>, \<open>ADMIN\<close> or
  \<open>SUPERUSER\<close> or is absent.  A request without a role passes, as the claim says, and
  so do the three strings; but so does the empty string, because the library tests the
  string of the value, and the \<open>undefined\<close> that \<open>src/app.js\<close> lists among the allowed
  values and an absent role both become the empty string.
\<close>

theorem empty_role_passes_validation:
  "req_body (req_user_role [] ''Cy'' ''cy@x.org'' '''') ''role'' = Some '''' \<and>
   isIn [Some ''USER'', Some ''ADMIN'', Some ''SUPERUSER'', None]
     (toString (req_body (req_user_role [] ''Cy'' ''cy@x.org'' '''') ''role'')) \<and>
   simpleValidationResults (userValidationRules sample_isEmail)
     (req_user_role [] ''Cy'' ''cy@x.org'' '''') = [] \<and>
   checkForErrors (userValidationRules sample_isEmail)
     (req_user_role [] ''Cy'' ''cy@x.org'' '''') = None"
  by code_simp

end
